theory Spec2Isabelle
  imports Main "HOL-Library.AList" "HOL-Library.Sublist"
begin

section \<open>Version comparison (index.mjs, compareVersions)\<close>

text \<open>
  Strings are lists of characters. \<open>split_dot\<close> is \<^verbatim>\<open>s.split('.')\<close>: it cuts at
  every dot, keeps empty pieces and always returns at least one piece.
\<close>

fun split_on :: "char \<Rightarrow> string \<Rightarrow> string list" where
  "split_on sep [] = [[]]"
| "split_on sep (c # cs) =
     (if c = sep then [] # split_on sep cs
      else (case split_on sep cs of
              [] \<Rightarrow> [[c]]
            | p # ps \<Rightarrow> (c # p) # ps))"

definition split_dot :: "string \<Rightarrow> string list" where
  "split_dot s = split_on (CHR ''.'') s"

text \<open>
  \<^verbatim>\<open>Number\<close> is the platform's conversion of a string to a number; it is not code of
  the repository, so \<open>compareVersions\<close> takes it as the parameter \<open>num\<close>. Its result
  is \<open>None\<close> for NaN and \<open>Some v\<close> otherwise, with \<open>v\<close> in any linear order that has a
  zero (the numbers of the platform, NaN apart, with \<open>-0\<close> and \<open>+0\<close> identified,
  compare this way). \<^verbatim>\<open>x || 0\<close> is \<open>orZero\<close>: NaN, zero and \<^verbatim>\<open>undefined\<close> (an index
  past the end of the array, in \<open>partAt\<close>) all give \<open>0\<close>.
\<close>

definition orZero :: "'n::zero option \<Rightarrow> 'n" where
  "orZero x = (case x of None \<Rightarrow> 0 | Some v \<Rightarrow> v)"

definition partAt :: "'n::zero option list \<Rightarrow> nat \<Rightarrow> 'n" where
  "partAt ps i = (if i < length ps then orZero (ps ! i) else 0)"

function compareLoop ::
  "'n::{zero,linorder} option list \<Rightarrow> 'n option list \<Rightarrow> nat \<Rightarrow> int" where
  "compareLoop aParts bParts i =
     (if i < max (length aParts) (length bParts) then
        (let aPart = partAt aParts i; bPart = partAt bParts i in
         if aPart > bPart then 1
         else if aPart < bPart then - 1
         else compareLoop aParts bParts (i + 1))
      else 0)"
  by pat_completeness auto
termination
  by (relation "measure (\<lambda>(aParts, bParts, i). max (length aParts) (length bParts) - i)") auto

declare compareLoop.simps [simp del]

definition compareVersions ::
  "(string \<Rightarrow> 'n::{zero,linorder} option) \<Rightarrow> string \<Rightarrow> string \<Rightarrow> int" where
  "compareVersions num a b =
     (let aParts = map num (split_dot a);
          bParts = map num (split_dot b)
      in compareLoop aParts bParts 0)"

text \<open>
  \<open>Number_dec\<close> agrees with \<^verbatim>\<open>Number\<close> on the components of the versions used
  below: the empty string is \<open>0\<close>, a string of decimal digits is the integer it
  denotes (exactly so below \<open>2^53\<close>), and a string with a letter in it is NaN. It
  stands for \<open>num\<close> wherever a concrete run is evaluated; the general statements
  hold for every \<open>num\<close>.
\<close>

definition digitVal :: "char \<Rightarrow> nat option" where
  "digitVal c =
     (let n = (of_char c :: nat) in if 48 \<le> n \<and> n \<le> 57 then Some (n - 48) else None)"

fun decimalValue :: "nat \<Rightarrow> string \<Rightarrow> nat option" where
  "decimalValue acc [] = Some acc"
| "decimalValue acc (c # cs) =
     (case digitVal c of None \<Rightarrow> None | Some d \<Rightarrow> decimalValue (10 * acc + d) cs)"

definition Number_dec :: "string \<Rightarrow> int option" where
  "Number_dec s = map_option int (decimalValue 0 s)"

section \<open>Data model (registry.json, index.mjs)\<close>

text \<open>
  An object of the source is an association list of its own properties, in the
  order of its \<^verbatim>\<open>Object.entries\<close>; it holds every key once (\<open>jsobject\<close>). Keys that
  look like array indices, which \<^verbatim>\<open>Object.entries\<close> lists first, are listed where
  they were inserted.

  Documents are values. The copies \<^verbatim>\<open>{ ...remoteEntry }\<close> and \<^verbatim>\<open>{ ...versionData }\<close>
  of the merge are shallow, so a new local entry shares its \<^verbatim>\<open>versions\<close> object
  with the remote document it came from; one merge visits every id once and does not
  write to such an entry again, and a second merge of the same document finds every
  version of it present and writes nothing to it either.
\<close>

definition jsobject :: "(string \<times> 'v) list \<Rightarrow> bool" where
  "jsobject obj = distinct (map fst obj)"

record versionData =
  description :: string
  prompt :: string
  category :: string
  tags :: "string list"
  version :: string
  variants :: "(string \<times> string) list option"

record promptEntry =
  latest :: string
  versions :: "(string \<times> versionData) list"

type_synonym registryDocument = "(string \<times> promptEntry) list"

text \<open>The fetched document: \<^verbatim>\<open>{ prompts: {...}, schemaVersion? }\<close>.\<close>

record remoteRegistry =
  prompts :: registryDocument
  remoteSchemaVersion :: "string option"

text \<open>\<^verbatim>\<open>registryMetadata\<close>; times are milliseconds since the epoch.\<close>

record metadata =
  localVersion :: string
  lastSync :: "nat option"
  lastModified :: nat
  syncUrl :: "string option"
  schemaVersion :: string

text \<open>
  Every object of a document comes from \<^verbatim>\<open>JSON.parse\<close> or from an object spread, so
  its prototype is \<^verbatim>\<open>Object.prototype\<close>. A read \<^verbatim>\<open>obj[k]\<close> yields the own property
  \<open>k\<close> when there is one and else what the prototype holds under \<open>k\<close>: for the
  names below a function, and for \<^verbatim>\<open>__proto__\<close> the prototype object itself. All of
  these are truthy, and none of them has a property \<^verbatim>\<open>latest\<close> or \<^verbatim>\<open>versions\<close>.

  The merge, whose tests \<^verbatim>\<open>!registry[promptId]\<close> and
  \<^verbatim>\<open>!localEntry.versions[version]\<close> are such reads, is modelled with them.
  Validation, retrieval and search are modelled for the names that are own
  properties or are absent from the prototype as well.
\<close>

definition objectPrototypeNames :: "string list" where
  "objectPrototypeNames =
     [''constructor'', ''__defineGetter__'', ''__defineSetter__'', ''hasOwnProperty'',
      ''__lookupGetter__'', ''__lookupSetter__'', ''isPrototypeOf'', ''propertyIsEnumerable'',
      ''toString'', ''valueOf'', ''__proto__'', ''toLocaleString'']"

datatype 'v property = Own 'v | Inherited | Absent

definition getProperty :: "(string \<times> 'v) list \<Rightarrow> string \<Rightarrow> 'v property" where
  "getProperty obj k =
     (case map_of obj k of
        Some v \<Rightarrow> Own v
      | None \<Rightarrow> if k \<in> set objectPrototypeNames then Inherited else Absent)"

text \<open>
  The two module-level variables that the operations read and write. The registry
  document lists own properties only, so the store keeps beside it the one thing a
  merge can change that the document does not show: the prototype of the \<^verbatim>\<open>versions\<close>
  object of a prompt, once an assignment to \<^verbatim>\<open>versions['__proto__']\<close> has replaced
  it (\<open>None\<close> stands for \<^verbatim>\<open>Object.prototype\<close>, as \<^verbatim>\<open>JSON.parse\<close> leaves it).
\<close>

record store =
  registry :: registryDocument
  registryMetadata :: metadata
  versionsPrototypes :: "string \<rightharpoonup> versionData"

datatype mergeStrategy = PreferLocal | PreferRemote | Interactive

datatype errorPolicy = Throw | Warn | Silent

record syncOptions =
  url :: string
  force :: bool
  timeout :: nat
  errorPolicy :: errorPolicy
  mergeStrategy :: mergeStrategy
  silent :: bool
  background :: bool

record mergeResult =
  newPrompts :: nat
  updatedPrompts :: nat
  conflicts :: "string list"
  warnings :: "string list"

section \<open>Errors (index.mjs, SyncError)\<close>

text \<open>
  What the code throws: a \<^verbatim>\<open>SyncError\<close> with its code and message, a \<^verbatim>\<open>TypeError\<close>
  of the platform, or any other \<^verbatim>\<open>Error\<close>; the last two carry their message.
  \<open>isSyncError\<close> is \<^verbatim>\<open>error instanceof SyncError\<close>.
\<close>

datatype syncErrorCode =
  NETWORK_ERROR | TIMEOUT | INVALID_SCHEMA | SCHEMA_MISMATCH | CORS_VIOLATION
  | CERTIFICATE_ERROR | QUOTA_EXCEEDED | AUTHENTICATION_FAILED | UNKNOWN

datatype exn =
  SyncError syncErrorCode string
  | TypeError string
  | Error string

fun isSyncError :: "exn \<Rightarrow> bool" where
  "isSyncError (SyncError code msg) = True"
| "isSyncError (TypeError msg) = False"
| "isSyncError (Error msg) = False"

fun message :: "exn \<Rightarrow> string" where
  "message (SyncError code msg) = msg"
| "message (TypeError msg) = msg"
| "message (Error msg) = msg"

section \<open>Version-aware merger (index.mjs, mergeRegistries)\<close>

text \<open>
  The \<^verbatim>\<open>versions\<close> object of a local entry: its own properties and its prototype,
  \<open>None\<close> for \<^verbatim>\<open>Object.prototype\<close>.

  \<open>hasVersion\<close> is the truth value of \<^verbatim>\<open>localEntry.versions[version]\<close>. An own
  version record is an object, so it is truthy. Without one the read goes to the
  prototype. A prototype that a merge has put in place is the copy of a version
  record, whose own properties are found first: the strings \<^verbatim>\<open>description\<close>,
  \<^verbatim>\<open>prompt\<close>, \<^verbatim>\<open>category\<close> and \<^verbatim>\<open>version\<close> are truthy unless empty, the array
  \<^verbatim>\<open>tags\<close> is truthy, and \<^verbatim>\<open>variants\<close> is truthy when present. Last come the
  names of \<^verbatim>\<open>Object.prototype\<close>, all truthy.
\<close>

type_synonym versionsObject = "(string \<times> versionData) list \<times> versionData option"

definition truthyField :: "versionData \<Rightarrow> string \<Rightarrow> bool" where
  "truthyField x k =
     ((k = ''description'' \<and> description x \<noteq> [])
      \<or> (k = ''prompt'' \<and> prompt x \<noteq> [])
      \<or> (k = ''category'' \<and> category x \<noteq> [])
      \<or> k = ''tags''
      \<or> (k = ''version'' \<and> version x \<noteq> [])
      \<or> (k = ''variants'' \<and> variants x \<noteq> None))"

definition hasVersion :: "versionsObject \<Rightarrow> string \<Rightarrow> bool" where
  "hasVersion localVersions ver =
     (case map_of (fst localVersions) ver of
        Some verData \<Rightarrow> True
      | None \<Rightarrow>
          (case snd localVersions of
             Some x \<Rightarrow> truthyField x ver \<or> ver \<in> set objectPrototypeNames
           | None \<Rightarrow> ver \<in> set objectPrototypeNames))"

text \<open>
  \<^verbatim>\<open>localEntry.versions[version] = { ...versionData }\<close> overwrites the own property
  \<open>version\<close> in place or appends it, with one exception: for the name \<^verbatim>\<open>__proto__\<close>,
  when the object has no own property of that name, the assignment reaches the
  setter inherited from \<^verbatim>\<open>Object.prototype\<close>, which makes the copy the prototype of
  the object and adds no property.
\<close>

definition assignVersion :: "string \<Rightarrow> versionData \<Rightarrow> versionsObject \<Rightarrow> versionsObject" where
  "assignVersion ver verData localVersions =
     (if ver = ''__proto__'' \<and> map_of (fst localVersions) ver = None
      then (fst localVersions, Some verData)
      else (AList.update ver verData (fst localVersions), snd localVersions))"

text \<open>
  The three inner loops over \<^verbatim>\<open>Object.entries(remoteEntry.versions)\<close>. \<open>addMissing\<close>
  serves the local-newer and the same-version branch, \<open>copyAll\<close> the prefer-remote
  branch and \<open>addNewer\<close> the branch of the other strategies, which also pushes the
  warnings.
\<close>

fun addMissing :: "versionsObject \<Rightarrow> (string \<times> versionData) list \<Rightarrow> versionsObject" where
  "addMissing localVersions [] = localVersions"
| "addMissing localVersions ((ver, verData) # rest) =
     (if \<not> hasVersion localVersions ver
      then addMissing (assignVersion ver verData localVersions) rest
      else addMissing localVersions rest)"

fun copyAll :: "versionsObject \<Rightarrow> (string \<times> versionData) list \<Rightarrow> versionsObject" where
  "copyAll localVersions [] = localVersions"
| "copyAll localVersions ((ver, verData) # rest) =
     copyAll (assignVersion ver verData localVersions) rest"

definition newerWarning :: "string \<Rightarrow> string \<Rightarrow> string" where
  "newerWarning ver promptId =
     ''Added newer version '' @ ver @ '' to local prompt '' @ promptId"

fun addNewer ::
  "(string \<Rightarrow> 'n::{zero,linorder} option) \<Rightarrow> string \<Rightarrow> string \<Rightarrow>
   versionsObject \<Rightarrow> string list \<Rightarrow> (string \<times> versionData) list \<Rightarrow>
   versionsObject \<times> string list" where
  "addNewer num promptId localLatest localVersions warns [] = (localVersions, warns)"
| "addNewer num promptId localLatest localVersions warns ((ver, verData) # rest) =
     (if \<not> hasVersion localVersions ver \<and> compareVersions num ver localLatest = 1
      then addNewer num promptId localLatest (assignVersion ver verData localVersions)
             (warns @ [newerWarning ver promptId]) rest
      else addNewer num promptId localLatest localVersions warns rest)"

text \<open>
  The part of the loop body that handles an id with an own entry in the local
  registry: the entry and the prototype of its \<^verbatim>\<open>versions\<close> object as the body
  leaves them, and the result record with its counters and warnings.
\<close>

definition mergeExisting ::
  "(string \<Rightarrow> 'n::{zero,linorder} option) \<Rightarrow> syncOptions \<Rightarrow> string \<Rightarrow>
   promptEntry \<Rightarrow> versionData option \<Rightarrow> promptEntry \<Rightarrow> mergeResult \<Rightarrow>
   promptEntry \<times> versionData option \<times> mergeResult" where
  "mergeExisting num options promptId localEntry proto remoteEntry result =
     (let versionComparison = compareVersions num (latest localEntry) (latest remoteEntry);
          localNewer = versionComparison > 0;
          remoteNewer = versionComparison < 0
      in if localNewer then
           (let (vs, proto') = addMissing (versions localEntry, proto) (versions remoteEntry)
            in (localEntry\<lparr>versions := vs\<rparr>, proto', result))
         else if remoteNewer then
           (if mergeStrategy options = PreferRemote then
              (let (vs, proto') = copyAll (versions localEntry, proto) (versions remoteEntry)
               in (localEntry\<lparr>latest := latest remoteEntry, versions := vs\<rparr>, proto',
                   result\<lparr>updatedPrompts := updatedPrompts result + 1\<rparr>))
            else
              (let ((vs, proto'), ws) =
                     addNewer num promptId (latest localEntry) (versions localEntry, proto)
                       (warnings result) (versions remoteEntry)
               in (localEntry\<lparr>versions := vs\<rparr>, proto', result\<lparr>warnings := ws\<rparr>)))
         else
           (let (vs, proto') = addMissing (versions localEntry, proto) (versions remoteEntry)
            in (localEntry\<lparr>versions := vs\<rparr>, proto', result)))"

text \<open>
  The schema-version block, which closes the loop body. \<^verbatim>\<open>remoteMetadata\<close> is an
  object with the one field \<^verbatim>\<open>schemaVersion\<close>, here the optional string itself; the
  test \<^verbatim>\<open>if (remoteMetadata.schemaVersion)\<close> fails on \<^verbatim>\<open>undefined\<close> and on the
  empty string.
\<close>

definition updateSchemaVersion ::
  "(string \<Rightarrow> 'n::{zero,linorder} option) \<Rightarrow> string option \<Rightarrow> metadata \<Rightarrow> metadata" where
  "updateSchemaVersion num remoteMetadata md =
     (case remoteMetadata of
        None \<Rightarrow> md
      | Some sv \<Rightarrow>
          if sv = [] then md
          else (let schemaComparison = compareVersions num sv (schemaVersion md)
                in if schemaComparison > 0 then md\<lparr>schemaVersion := sv\<rparr> else md))"

text \<open>
  One pass of the loop over \<^verbatim>\<open>Object.entries(remoteRegistry.prompts)\<close>, by what
  \<^verbatim>\<open>registry[promptId]\<close> yields. When it is \<^verbatim>\<open>undefined\<close> the id is new to the local
  registry: the remote entry is copied, its \<^verbatim>\<open>versions\<close> object, fresh from
  \<^verbatim>\<open>JSON.parse\<close>, with it, and the pass ends there (\<^verbatim>\<open>continue\<close>). When
  it is an own entry, that entry is merged. When it is a value inherited from
  \<^verbatim>\<open>Object.prototype\<close>, the test \<^verbatim>\<open>!registry[promptId]\<close> fails as well, and
  \<^verbatim>\<open>localEntry.versions[localEntry.latest]\<close> reads a property of \<^verbatim>\<open>undefined\<close>: the
  pass throws a \<^verbatim>\<open>TypeError\<close> and has changed nothing.
\<close>

definition mergeStep ::
  "(string \<Rightarrow> 'n::{zero,linorder} option) \<Rightarrow> string option \<Rightarrow> syncOptions \<Rightarrow>
   string \<times> promptEntry \<Rightarrow> store \<times> mergeResult \<Rightarrow> exn + store \<times> mergeResult" where
  "mergeStep num remoteMetadata options e acc =
     (let (promptId, remoteEntry) = e; (st, result) = acc
      in case getProperty (registry st) promptId of
           Absent \<Rightarrow>
             Inr (st\<lparr>registry := AList.update promptId remoteEntry (registry st),
                     versionsPrototypes := (versionsPrototypes st)(promptId := None)\<rparr>,
                  result\<lparr>newPrompts := newPrompts result + 1\<rparr>)
         | Inherited \<Rightarrow>
             Inl (TypeError ''Cannot read properties of undefined (reading 'undefined')'')
         | Own localEntry \<Rightarrow>
             (let (localEntry', proto', result') =
                    mergeExisting num options promptId localEntry
                      (versionsPrototypes st promptId) remoteEntry result
              in Inr (st\<lparr>registry := AList.update promptId localEntry' (registry st),
                         versionsPrototypes := (versionsPrototypes st)(promptId := proto'),
                         registryMetadata :=
                           updateSchemaVersion num remoteMetadata (registryMetadata st)\<rparr>,
                      result')))"

text \<open>
  The loop. The registry is changed in place, so when a pass throws, the store stays
  as the passes before it left it, and the result record is lost with the call.
\<close>

fun mergeLoop ::
  "(string \<Rightarrow> 'n::{zero,linorder} option) \<Rightarrow> string option \<Rightarrow> syncOptions \<Rightarrow>
   (string \<times> promptEntry) list \<Rightarrow> store \<times> mergeResult \<Rightarrow> store \<times> (exn + mergeResult)" where
  "mergeLoop num remoteMetadata options [] acc = (fst acc, Inr (snd acc))"
| "mergeLoop num remoteMetadata options (e # es) acc =
     (case mergeStep num remoteMetadata options e acc of
        Inl error \<Rightarrow> (fst acc, Inl error)
      | Inr acc' \<Rightarrow> mergeLoop num remoteMetadata options es acc')"

text \<open>
  \<open>mergeRegistries\<close> throws (\<open>Inl\<close>) or returns its result record (\<open>Inr\<close>); the store
  is returned in both cases.
\<close>

definition mergeRegistries ::
  "(string \<Rightarrow> 'n::{zero,linorder} option) \<Rightarrow> store \<Rightarrow> remoteRegistry \<Rightarrow> string option \<Rightarrow>
   syncOptions \<Rightarrow> store \<times> (exn + mergeResult)" where
  "mergeRegistries num st remoteRegistry remoteMetadata options =
     mergeLoop num remoteMetadata options (prompts remoteRegistry)
       (st, \<lparr>newPrompts = 0, updatedPrompts = 0, conflicts = [], warnings = []\<rparr>)"

section \<open>Configuration (index.mjs)\<close>

text \<open>\<^verbatim>\<open>config\<close>, as \<^verbatim>\<open>loadConfig\<close> returns it; the numbers are non-negative integers.\<close>

record urlsConfig =
  development :: string
  production :: string

record policiesConfig =
  autoSync :: bool
  backgroundSync :: bool
  syncInterval :: nat
  policyTimeout :: nat
  retryAttempts :: nat

record securityConfig =
  trustedDomains :: "string list"
  requireHttps :: bool
  certificateValidation :: bool
  maxPayloadSize :: nat

record cacheConfig =
  directory :: string
  ttl :: nat
  maxSize :: nat

record config =
  urls :: urlsConfig
  policies :: policiesConfig
  security :: securityConfig
  cache :: cacheConfig

definition DEFAULT_CONFIG :: config where
  "DEFAULT_CONFIG =
     \<lparr>urls = \<lparr>development =
                 ''https://raw.githubusercontent.com/prompt-registry/core/develop/registry.json'',
               production =
                 ''https://cdn.jsdelivr.net/gh/prompt-registry/core@main/registry.json''\<rparr>,
      policies = \<lparr>autoSync = False, backgroundSync = False, syncInterval = 86400000,
                   policyTimeout = 30000, retryAttempts = 3\<rparr>,
      security = \<lparr>trustedDomains =
                     [''githubusercontent.com'', ''github.com'', ''cdn.jsdelivr.net'',
                      ''raw.githubusercontent.com'', ''unpkg.com'', ''jsdelivr.net''],
                   requireHttps = True, certificateValidation = True,
                   maxPayloadSize = 104857600\<rparr>,
      cache = \<lparr>directory = ''.cache'', ttl = 3600000, maxSize = 104857600\<rparr>\<rparr>"

text \<open>A non-negative integer in a template literal: its decimal digits.\<close>

definition digitChar :: "nat \<Rightarrow> char" where
  "digitChar d = char_of (48 + d)"

function decimal :: "nat \<Rightarrow> string" where
  "decimal n = (if n < 10 then [digitChar n] else decimal (n div 10) @ [digitChar (n mod 10)])"
  by pat_completeness auto
termination
  by (relation "measure (\<lambda>n. n)") auto

declare decimal.simps [simp del]

section \<open>Network layer (index.mjs, isTrustedDomain and fetchRemoteRegistry)\<close>

text \<open>
  \<^verbatim>\<open>new URL(url)\<close> is the platform's parser, the parameter \<open>parseURL\<close>: \<open>None\<close> when
  it throws, else the two fields the code reads. \<^verbatim>\<open>hostname.endsWith('.' + domain)\<close>
  is \<open>suffix\<close>.
\<close>

record parsedUrl =
  protocol :: string
  hostname :: string

definition isTrustedDomain :: "config \<Rightarrow> (string \<Rightarrow> parsedUrl option) \<Rightarrow> string \<Rightarrow> bool" where
  "isTrustedDomain cfg parseURL u =
     (case parseURL u of
        None \<Rightarrow> False
      | Some parsed \<Rightarrow>
          if requireHttps (security cfg) \<and> protocol parsed \<noteq> ''https:'' then False
          else list_ex (\<lambda>domain. hostname parsed = domain
                                 \<or> suffix (''.'' @ domain) (hostname parsed))
                 (trustedDomains (security cfg)))"

text \<open>
  One call of \<^verbatim>\<open>fetch\<close> either throws (a transport failure or the abort of the
  timeout) or resolves to a response. Of the response the code reads \<^verbatim>\<open>ok\<close>,
  \<^verbatim>\<open>status\<close>, \<^verbatim>\<open>statusText\<close>, the \<^verbatim>\<open>content-type\<close> header (\<open>None\<close> when absent) and
  \<^verbatim>\<open>json()\<close>, which throws or yields the decoded payload. The network is the
  parameter \<open>net\<close>: \<open>net k\<close> is what the \<open>k\<close>-th call of \<^verbatim>\<open>fetch\<close> meets. The length
  of \<^verbatim>\<open>JSON.stringify(data)\<close> is the parameter \<open>jsonLength\<close>.
\<close>

record 'd response =
  ok :: bool
  status :: nat
  statusText :: string
  contentType :: "string option"
  json :: "exn + 'd"

datatype 'd fetched = Rejected exn | Resolved "'d response"

text \<open>
  The \<^verbatim>\<open>try\<close> block of one attempt: the call of \<^verbatim>\<open>fetch\<close> and the checks of the
  status, the content type and the size of the payload.
\<close>

definition fetchAttempt :: "config \<Rightarrow> ('d \<Rightarrow> nat) \<Rightarrow> string \<Rightarrow> 'd fetched \<Rightarrow> exn + 'd" where
  "fetchAttempt cfg jsonLength u outcome =
     (case outcome of
        Rejected e \<Rightarrow> Inl e
      | Resolved resp \<Rightarrow>
          if \<not> ok resp then
            Inl (SyncError NETWORK_ERROR
                   (''HTTP '' @ decimal (status resp) @ '': '' @ statusText resp))
          else
            (let ct = (case contentType resp of None \<Rightarrow> [] | Some c \<Rightarrow> c)
             in if \<not> sublist ''application/json'' ct then
                  Inl (SyncError INVALID_SCHEMA (''Invalid content type: '' @ ct))
                else
                  (case json resp of
                     Inl e \<Rightarrow> Inl e
                   | Inr data \<Rightarrow>
                       (let dataSize = jsonLength data
                        in if dataSize > maxPayloadSize (security cfg) then
                             Inl (SyncError QUOTA_EXCEEDED
                                    (''Payload too large: '' @ decimal dataSize @ '' bytes''))
                           else Inr data))))"

text \<open>
  What a run of \<open>fetchRemoteRegistry\<close> leaves behind besides its outcome: the number
  of calls of \<^verbatim>\<open>fetch\<close> and the delays it waited between attempts.
\<close>

record 'd fetchRun =
  outcome :: "exn + 'd"
  calls :: nat
  waits :: "nat list"

text \<open>
  The statement after the loop: \<^verbatim>\<open>lastError\<close> is rethrown when it is a
  \<^verbatim>\<open>SyncError\<close> and wrapped as \<^verbatim>\<open>NETWORK_ERROR\<close> otherwise. With no attempt made
  (\<^verbatim>\<open>retryAttempts\<close> below one) \<^verbatim>\<open>lastError\<close> is \<^verbatim>\<open>undefined\<close> and reading its
  message throws a \<^verbatim>\<open>TypeError\<close>.
\<close>

definition finalError :: "exn option \<Rightarrow> exn" where
  "finalError lastError =
     (case lastError of
        None \<Rightarrow> TypeError ''Cannot read properties of undefined (reading 'message')''
      | Some e \<Rightarrow>
          if isSyncError e then e
          else SyncError NETWORK_ERROR
                 (if message e = [] then ''Network request failed'' else message e))"

text \<open>
  The retry loop, from \<open>attempt\<close> on. Every error of the \<^verbatim>\<open>try\<close> block lands in the
  one \<^verbatim>\<open>catch\<close>, which waits and goes on while attempts remain.
\<close>

function fetchLoop ::
  "config \<Rightarrow> ('d \<Rightarrow> nat) \<Rightarrow> (nat \<Rightarrow> 'd fetched) \<Rightarrow> string \<Rightarrow>
   nat \<Rightarrow> exn option \<Rightarrow> nat \<Rightarrow> nat list \<Rightarrow> 'd fetchRun" where
  "fetchLoop cfg jsonLength net u attempt lastError n ws =
     (if attempt \<le> retryAttempts (policies cfg) then
        (case fetchAttempt cfg jsonLength u (net (n + 1)) of
           Inr data \<Rightarrow> \<lparr>outcome = Inr data, calls = n + 1, waits = ws\<rparr>
         | Inl error \<Rightarrow>
             if attempt < retryAttempts (policies cfg) then
               (let delay = min (1000 * 2 ^ (attempt - 1)) 30000
                in fetchLoop cfg jsonLength net u (attempt + 1) (Some error) (n + 1) (ws @ [delay]))
             else fetchLoop cfg jsonLength net u (attempt + 1) (Some error) (n + 1) ws)
      else \<lparr>outcome = Inl (finalError lastError), calls = n, waits = ws\<rparr>)"
  by pat_completeness auto
termination
  by (relation "measure (\<lambda>(cfg, jsonLength, net, u, attempt, lastError, n, ws).
        Suc (retryAttempts (policies cfg)) - attempt)") auto

declare fetchLoop.simps [simp del]

text \<open>
  \<open>fetchRemoteRegistry\<close>. The message of the \<^verbatim>\<open>CERTIFICATE_ERROR\<close> is built with a
  second \<^verbatim>\<open>new URL(url)\<close>, inside the \<^verbatim>\<open>throw\<close> statement: when the url does not
  parse, that call throws the parser's \<^verbatim>\<open>TypeError\<close> before the \<^verbatim>\<open>SyncError\<close>
  exists.
\<close>

definition fetchRemoteRegistry ::
  "config \<Rightarrow> (string \<Rightarrow> parsedUrl option) \<Rightarrow> ('d \<Rightarrow> nat) \<Rightarrow> (nat \<Rightarrow> 'd fetched) \<Rightarrow>
   string \<Rightarrow> 'd fetchRun" where
  "fetchRemoteRegistry cfg parseURL jsonLength net u =
     (if \<not> isTrustedDomain cfg parseURL u then
        (case parseURL u of
           None \<Rightarrow> \<lparr>outcome = Inl (TypeError ''Invalid URL''), calls = 0, waits = []\<rparr>
         | Some parsed \<Rightarrow>
             \<lparr>outcome = Inl (SyncError CERTIFICATE_ERROR
                               (''Untrusted domain: '' @ hostname parsed)),
              calls = 0, waits = []\<rparr>)
      else fetchLoop cfg jsonLength net u 1 None 0 [])"

section \<open>Schema validation and persistence (index.mjs)\<close>

text \<open>
  The decoded payload of a response. \<open>validateRemoteSchema\<close> rejects a payload that
  is not an object or has no \<^verbatim>\<open>prompts\<close> object, and then checks every entry; on a
  typed entry the checks that can fail are the empty \<^verbatim>\<open>latest\<close> and the \<^verbatim>\<open>latest\<close>
  that is not a key of \<^verbatim>\<open>versions\<close>.
\<close>

datatype payload = NotAnObject | NoPrompts | Document remoteRegistry

definition dquote :: char where
  "dquote = CHR 0x22"

fun validateEntries :: "(string \<times> promptEntry) list \<Rightarrow> exn option" where
  "validateEntries [] = None"
| "validateEntries ((promptId, entry) # rest) =
     (if latest entry = [] then
        Some (SyncError INVALID_SCHEMA
                (''Prompt '' @ promptId @ '' missing valid '' @ [dquote] @ ''latest''
                 @ [dquote] @ '' version''))
      else if map_of (versions entry) (latest entry) = None then
        Some (SyncError INVALID_SCHEMA
                (''Prompt '' @ promptId @ '' latest version '' @ [dquote] @ latest entry
                 @ [dquote] @ '' not found''))
      else validateEntries rest)"

definition validateRemoteSchema :: "payload \<Rightarrow> exn + remoteRegistry" where
  "validateRemoteSchema data =
     (case data of
        NotAnObject \<Rightarrow> Inl (SyncError INVALID_SCHEMA ''Registry must be an object'')
      | NoPrompts \<Rightarrow>
          Inl (SyncError INVALID_SCHEMA
                 (''Registry must contain '' @ [dquote] @ ''prompts'' @ [dquote] @ '' object''))
      | Document d \<Rightarrow>
          (case validateEntries (prompts d) of
             Some e \<Rightarrow> Inl e
           | None \<Rightarrow> Inr d))"

text \<open>
  \<open>saveLocalRegistry\<close>. \<open>thrown\<close> is what \<^verbatim>\<open>fs.writeFileSync\<close> throws, if it throws;
  \<open>now\<close> is the clock at the \<^verbatim>\<open>new Date()\<close> after a successful write.
\<close>

definition saveLocalRegistry :: "exn option \<Rightarrow> nat \<Rightarrow> store \<Rightarrow> exn + store" where
  "saveLocalRegistry thrown now st =
     (case thrown of
        Some error \<Rightarrow>
          Inl (SyncError QUOTA_EXCEEDED (''Failed to save registry: '' @ message error))
      | None \<Rightarrow>
          Inr (st\<lparr>registryMetadata := (registryMetadata st)\<lparr>lastModified := now\<rparr>\<rparr>))"

section \<open>Core sync function (index.mjs, sync)\<close>

text \<open>
  What \<open>sync\<close> meets outside the program: the answers of the two calls of
  \<^verbatim>\<open>loadFromCache\<close>, the network, what the write of the registry file throws, and
  the clock at the two \<^verbatim>\<open>new Date()\<close>. \<open>sync\<close> takes \<^verbatim>\<open>syncOptions\<close>, the options
  after the defaults are filled in, with no progress callback.
\<close>

record world =
  cachedFirst :: "remoteRegistry option"
  cachedSecond :: "remoteRegistry option"
  network :: "nat \<Rightarrow> payload fetched"
  writeThrows :: "exn option"
  savedAt :: nat
  finishedAt :: nat

record syncResult =
  success :: bool
  resultLocalVersion :: string
  remoteVersion :: "string option"
  resultNewPrompts :: nat
  resultUpdatedPrompts :: nat
  errors :: "exn list"
  resultWarnings :: "string list"
  resultLastSync :: "nat option"

text \<open>
  The \<^verbatim>\<open>try\<close> block, in its two parts: the merge of a cached document
  (\<open>syncCachePath\<close>) and the fetch, validation, merge and save of the remote one
  (\<open>syncFetchPath\<close>). It returns the exception that leaves it, if one does, with
  the store and the result record as they are at that point: nothing is rolled back.
\<close>

definition withMerge :: "syncResult \<Rightarrow> mergeResult \<Rightarrow> syncResult" where
  "withMerge r mergeResult =
     r\<lparr>resultNewPrompts := newPrompts mergeResult,
       resultUpdatedPrompts := updatedPrompts mergeResult,
       resultWarnings := warnings mergeResult\<rparr>"

definition remoteVersionOf :: "remoteRegistry \<Rightarrow> string" where
  "remoteVersionOf doc =
     (case remoteSchemaVersion doc of
        None \<Rightarrow> ''2.0''
      | Some v \<Rightarrow> if v = [] then ''2.0'' else v)"

definition syncFetchPath ::
  "config \<Rightarrow> (string \<Rightarrow> 'n::{zero,linorder} option) \<Rightarrow> (string \<Rightarrow> parsedUrl option) \<Rightarrow>
   (payload \<Rightarrow> nat) \<Rightarrow> world \<Rightarrow> syncOptions \<Rightarrow> store \<Rightarrow> syncResult \<Rightarrow>
   exn option \<times> store \<times> syncResult" where
  "syncFetchPath cfg num parseURL jsonLength w syncOptions st r =
     (case outcome (fetchRemoteRegistry cfg parseURL jsonLength (network w) (url syncOptions)) of
        Inl e \<Rightarrow> (Some e, st, r)
      | Inr remoteData \<Rightarrow>
          (case validateRemoteSchema remoteData of
             Inl e \<Rightarrow> (Some e, st, r)
           | Inr doc \<Rightarrow>
               (let r1 = r\<lparr>remoteVersion := Some (remoteVersionOf doc)\<rparr>
                in case mergeRegistries num st doc (Some (remoteVersionOf doc)) syncOptions of
                     (st1, Inl e) \<Rightarrow> (Some e, st1, r1)
                   | (st1, Inr mergeResult) \<Rightarrow>
                       (let r2 = withMerge r1 mergeResult
                        in if resultNewPrompts r2 > 0 \<or> resultUpdatedPrompts r2 > 0 then
                             (case saveLocalRegistry (writeThrows w) (savedAt w) st1 of
                                Inl e \<Rightarrow> (Some e, st1, r2)
                              | Inr st2 \<Rightarrow> (None, st2, r2))
                           else (None, st1, r2)))))"

definition syncCachePath ::
  "(string \<Rightarrow> 'n::{zero,linorder} option) \<Rightarrow> world \<Rightarrow> syncOptions \<Rightarrow> store \<Rightarrow> syncResult \<Rightarrow>
   exn option \<times> store \<times> syncResult" where
  "syncCachePath num w syncOptions st r =
     (if \<not> force syncOptions then
        (case cachedFirst w of
           Some cached \<Rightarrow>
             (case mergeRegistries num st cached (Some ''2.0'') syncOptions of
                (st', Inl e) \<Rightarrow> (Some e, st', r)
              | (st', Inr mergeResult) \<Rightarrow> (None, st', withMerge r mergeResult))
         | None \<Rightarrow> (None, st, r))
      else (None, st, r))"

definition syncTry ::
  "config \<Rightarrow> (string \<Rightarrow> 'n::{zero,linorder} option) \<Rightarrow> (string \<Rightarrow> parsedUrl option) \<Rightarrow>
   (payload \<Rightarrow> nat) \<Rightarrow> world \<Rightarrow> syncOptions \<Rightarrow> store \<Rightarrow> syncResult \<Rightarrow>
   exn option \<times> store \<times> syncResult" where
  "syncTry cfg num parseURL jsonLength w syncOptions st r =
     (case syncCachePath num w syncOptions st r of
        (Some e, st1, r1) \<Rightarrow> (Some e, st1, r1)
      | (None, st1, r1) \<Rightarrow>
          if cachedSecond w = None \<or> force syncOptions then
            syncFetchPath cfg num parseURL jsonLength w syncOptions st1 r1
          else (None, st1, r1))"

text \<open>
  \<open>sync\<close> either throws (\<open>Inl\<close>) or returns its result record (\<open>Inr\<close>); the store is
  returned in both cases.
\<close>

definition startResult :: "store \<Rightarrow> syncResult" where
  "startResult st =
     \<lparr>success = False, resultLocalVersion = localVersion (registryMetadata st),
      remoteVersion = None, resultNewPrompts = 0, resultUpdatedPrompts = 0,
      errors = [], resultWarnings = [], resultLastSync = None\<rparr>"

definition startStore :: "store \<Rightarrow> syncOptions \<Rightarrow> store" where
  "startStore st syncOptions =
     st\<lparr>registryMetadata := (registryMetadata st)\<lparr>syncUrl := Some (url syncOptions)\<rparr>\<rparr>"

definition sync ::
  "config \<Rightarrow> (string \<Rightarrow> 'n::{zero,linorder} option) \<Rightarrow> (string \<Rightarrow> parsedUrl option) \<Rightarrow>
   (payload \<Rightarrow> nat) \<Rightarrow> world \<Rightarrow> store \<Rightarrow> syncOptions \<Rightarrow> (exn + syncResult) \<times> store" where
  "sync cfg num parseURL jsonLength w st syncOptions =
     (case syncTry cfg num parseURL jsonLength w syncOptions
             (startStore st syncOptions) (startResult st) of
        (None, st1, r1) \<Rightarrow>
          (Inr (r1\<lparr>success := True, resultLastSync := Some (finishedAt w)\<rparr>),
           st1\<lparr>registryMetadata := (registryMetadata st1)
                 \<lparr>lastSync := Some (finishedAt w),
                  localVersion := (case remoteVersion r1 of
                                     None \<Rightarrow> localVersion (registryMetadata st1)
                                   | Some v \<Rightarrow> v)\<rparr>\<rparr>)
      | (Some error, st1, r1) \<Rightarrow>
          (let syncError =
                 (if isSyncError error then error
                  else SyncError UNKNOWN
                         (if message error = [] then ''Unknown error occurred''
                          else message error));
               r2 = r1\<lparr>errors := errors r1 @ [syncError]\<rparr>
           in if errorPolicy syncOptions = Throw then (Inl syncError, st1)
              else (Inr r2, st1)))"

section \<open>Multi-LLM variants (multi-llm-variants.js)\<close>

definition MODEL_CATEGORIES :: "(string \<times> string) list" where
  "MODEL_CATEGORIES =
     [(''gpt-4'', ''gpt''), (''gpt-3.5-turbo'', ''gpt''), (''claude-3-opus'', ''claude''),
      (''claude-3-sonnet'', ''claude''), (''claude-3-haiku'', ''claude''),
      (''llama-3'', ''llama''), (''llama-2'', ''llama''), (''gemini-pro'', ''gemini''),
      (''mistral-large'', ''mistral''), (''mixtral'', ''mistral'')]"

definition categoryPrefixes :: "(string \<times> string list) list" where
  "categoryPrefixes =
     [(''gpt'', [''gpt-4'', ''gpt-3.5'']), (''claude'', [''claude-3'', ''claude-2'']),
      (''llama'', [''llama-3'', ''llama-2'']), (''gemini'', [''gemini'']),
      (''mistral'', [''mistral'', ''mixtral''])]"

definition getModelCategory :: "string \<Rightarrow> string" where
  "getModelCategory m =
     (case map_of MODEL_CATEGORIES m of
        Some c \<Rightarrow> c
      | None \<Rightarrow>
          (case find (\<lambda>(c, models). list_ex (\<lambda>p. prefix p m) models) categoryPrefixes of
             Some (c, models) \<Rightarrow> c
           | None \<Rightarrow> ''generic''))"

text \<open>\<^verbatim>\<open>if (promptData.variants[k])\<close>: the variant is there and is not the empty string.\<close>

definition truthyVariant :: "(string \<times> string) list \<Rightarrow> string \<Rightarrow> string option" where
  "truthyVariant vs k =
     (case map_of vs k of
        None \<Rightarrow> None
      | Some t \<Rightarrow> if t = [] then None else Some t)"

definition getPromptVariant :: "versionData \<Rightarrow> string \<Rightarrow> string" where
  "getPromptVariant promptData m =
     (case variants promptData of
        None \<Rightarrow> prompt promptData
      | Some vs \<Rightarrow>
          (case truthyVariant vs m of
             Some t \<Rightarrow> t
           | None \<Rightarrow>
               (case truthyVariant vs (getModelCategory m) of
                  Some t \<Rightarrow> t
                | None \<Rightarrow>
                    (case truthyVariant vs ''generic'' of
                       Some t \<Rightarrow> t
                     | None \<Rightarrow> prompt promptData))))"

section \<open>Retrieval (index.mjs, get)\<close>

text \<open>
  The values of the variables object are strings; \<open>Falsy\<close> stands for a value such
  as \<^verbatim>\<open>undefined\<close> or \<^verbatim>\<open>null\<close>, for which \<^verbatim>\<open>value || ''\<close> is the empty string, as it
  is for the empty string itself.
\<close>

datatype varValue = Falsy | Str string

fun orEmpty :: "varValue \<Rightarrow> string" where
  "orEmpty Falsy = []"
| "orEmpty (Str s) = s"

text \<open>
  The replacement string of \<^verbatim>\<open>String.prototype.replace\<close> is a template: \<^verbatim>\<open>$$\<close>
  stands for a dollar sign, \<^verbatim>\<open>$&\<close> for the matched text, \<^verbatim>\<open>$`\<close> and \<^verbatim>\<open>$'\<close> for the
  text before and after the match. The pattern has no capture group, so a dollar
  sign before anything else stays as it is.
\<close>

fun expandReplacement :: "string \<Rightarrow> string \<Rightarrow> string \<Rightarrow> string \<Rightarrow> string" where
  "expandReplacement [] matched before after = []"
| "expandReplacement [c] matched before after = [c]"
| "expandReplacement (c # d # rest) matched before after =
     (if c = CHR ''$'' then
        (if d = CHR ''$'' then CHR ''$'' # expandReplacement rest matched before after
         else if d = CHR ''&'' then matched @ expandReplacement rest matched before after
         else if d = CHR 0x60 then before @ expandReplacement rest matched before after
         else if d = CHR 0x27 then after @ expandReplacement rest matched before after
         else c # expandReplacement (d # rest) matched before after)
      else c # expandReplacement (d # rest) matched before after)"

text \<open>
  \<^verbatim>\<open>s.replace(/pat/g, template)\<close> for a pattern that matches the one string \<open>pat\<close>:
  the occurrences are found from left to right without overlap, and \<open>before\<close> is the
  part of the subject already passed.
\<close>

function replaceAllLiteral :: "string \<Rightarrow> string \<Rightarrow> string \<Rightarrow> string \<Rightarrow> string" where
  "replaceAllLiteral pat template before s =
     (if s = [] then []
      else if pat \<noteq> [] \<and> prefix pat s then
        expandReplacement template pat before (drop (length pat) s)
        @ replaceAllLiteral pat template (before @ pat) (drop (length pat) s)
      else hd s # replaceAllLiteral pat template (before @ [hd s]) (tl s))"
  by pat_completeness auto
termination
  by (relation "measure (\<lambda>(pat, template, before, s). length s)") (auto simp: prefix_def)

declare replaceAllLiteral.simps [simp del]

text \<open>
  The code builds the regular expression from the key without escaping it. A key
  without a character that is special in a regular expression matches itself, and
  the replacement is \<open>replaceAllLiteral\<close>. For any other key the result is the
  regular-expression engine's, the parameter \<open>rx\<close>, given the key, the replacement
  and the subject; it may throw a \<^verbatim>\<open>SyntaxError\<close>.
\<close>

definition regexSpecial :: string where
  "regexSpecial = CHR 0x5C # ''^$.*+?()[]{}|''"

definition literalKey :: "string \<Rightarrow> bool" where
  "literalKey k = list_all (\<lambda>c. c \<notin> set regexSpecial) k"

definition replaceVariable ::
  "(string \<Rightarrow> string \<Rightarrow> string \<Rightarrow> exn + string) \<Rightarrow> string \<Rightarrow> varValue \<Rightarrow> string \<Rightarrow> exn + string" where
  "replaceVariable rx k v s =
     (if literalKey k then Inr (replaceAllLiteral (''{{'' @ k @ ''}}'') (orEmpty v) [] s)
      else rx k (orEmpty v) s)"

fun interpolate ::
  "(string \<Rightarrow> string \<Rightarrow> string \<Rightarrow> exn + string) \<Rightarrow> (string \<times> varValue) list \<Rightarrow> string \<Rightarrow> exn + string" where
  "interpolate rx [] s = Inr s"
| "interpolate rx ((k, v) # rest) s =
     (case replaceVariable rx k v s of
        Inl e \<Rightarrow> Inl e
      | Inr s' \<Rightarrow> interpolate rx rest s')"

text \<open>
  \<^verbatim>\<open>prompt.match(/\{\{([^}]+)\}\}/g)\<close> followed by \<^verbatim>\<open>v.slice(2, -2)\<close>: the names
  between a \<^verbatim>\<open>{{\<close> and the next \<^verbatim>\<open>}\<close>, where that \<^verbatim>\<open>}\<close> starts a \<^verbatim>\<open>}}\<close> and the
  name is not empty, from left to right without overlap.
\<close>

function unsubstituted :: "string \<Rightarrow> string list" where
  "unsubstituted s =
     (if s = [] then []
      else if prefix ''{{'' s then
        (let name = takeWhile (\<lambda>c. c \<noteq> CHR ''}'') (drop 2 s);
             after = dropWhile (\<lambda>c. c \<noteq> CHR ''}'') (drop 2 s)
         in if name \<noteq> [] \<and> prefix ''}}'' after then name # unsubstituted (drop 2 after)
            else unsubstituted (tl s))
      else unsubstituted (tl s))"
  by pat_completeness auto
termination
proof (relation "measure length")
  show "wf (measure length)" by simp
next
  fix s :: string and name after
  assume "s \<noteq> []" and "after = dropWhile (\<lambda>c. c \<noteq> CHR ''}'') (drop 2 s)"
  then have "length (drop 2 after) \<le> length (drop 2 s)"
    using length_dropWhile_le[of "\<lambda>c. c \<noteq> CHR ''}''" "drop 2 s"] by simp
  moreover assume "prefix ''{{'' s"
  then have "2 \<le> length s" by (auto simp: prefix_def)
  ultimately show "(drop 2 after, s) \<in> measure length" by simp
next
  fix s :: string
  assume "s \<noteq> []"
  then show "(tl s, s) \<in> measure length" by (cases s) simp_all
next
  fix s :: string
  assume "s \<noteq> []"
  then show "(tl s, s) \<in> measure length" by (cases s) simp_all
qed

declare unsubstituted.simps [simp del]

fun joinWith :: "string \<Rightarrow> string list \<Rightarrow> string" where
  "joinWith sep [] = []"
| "joinWith sep [x] = x"
| "joinWith sep (x # y # rest) = x @ sep @ joinWith sep (y # rest)"

text \<open>
  The options of \<open>get\<close>: \<^verbatim>\<open>syncOnMissing\<close>, \<^verbatim>\<open>syncUrl\<close> and \<^verbatim>\<open>timeout\<close>, which the
  code reads, and \<^verbatim>\<open>model\<close>, which the README documents for \<open>get\<close>.
\<close>

record getOptions =
  syncOnMissing :: bool
  getSyncUrl :: "string option"
  getTimeout :: "nat option"
  model :: "string option"

record promptData =
  dataId :: string
  dataPrompt :: string
  dataDescription :: string
  dataCategory :: string
  dataTags :: "string list"
  dataVersion :: string

text \<open>\<open>get\<close> from the lookup of the base id on, for a base id that is present or not.\<close>

definition splitId :: "string \<Rightarrow> string \<times> string" where
  "splitId ident =
     (if CHR ''@'' \<in> set ident then
        (case split_on (CHR ''@'') ident of
           baseId # ver # rest \<Rightarrow> (baseId, ver)
         | _ \<Rightarrow> (ident, []))
      else (ident, []))"

definition getLocal ::
  "(string \<Rightarrow> string \<Rightarrow> string \<Rightarrow> exn + string) \<Rightarrow> registryDocument \<Rightarrow> string \<Rightarrow>
   (string \<times> varValue) list \<Rightarrow> exn + promptData" where
  "getLocal rx reg ident variables =
     (let (baseId, ver0) = splitId ident
      in case map_of reg baseId of
           None \<Rightarrow> Inl (Error (''Prompt '' @ [dquote] @ ident @ [dquote] @ '' not found''))
         | Some base \<Rightarrow>
             (let ver = (if ver0 = [] then latest base else ver0)
              in case map_of (versions base) ver of
                   None \<Rightarrow>
                     Inl (Error (''Version '' @ [dquote] @ ver @ [dquote]
                                 @ '' not available for '' @ [dquote] @ baseId @ [dquote]))
                 | Some pd \<Rightarrow>
                     (case interpolate rx variables (prompt pd) of
                        Inl e \<Rightarrow> Inl e
                      | Inr text \<Rightarrow>
                          (let unsub = unsubstituted text
                           in if unsub \<noteq> [] then
                                Inl (Error (''Missing variables: '' @ joinWith '', '' unsub))
                              else
                                Inr \<lparr>dataId = baseId @ ''@'' @ ver, dataPrompt = text,
                                     dataDescription = description pd,
                                     dataCategory = category pd, dataTags = tags pd,
                                     dataVersion = version pd\<rparr>))))"

text \<open>
  \<open>syncAndRetryGet\<close>: \<open>synced\<close> is what the call of \<open>sync\<close> with error policy
  \<^verbatim>\<open>throw\<close> does, an exception or the registry after it. The second \<open>get\<close> is called
  without options, so it cannot sync again.
\<close>

definition syncAndRetryGet ::
  "(string \<Rightarrow> string \<Rightarrow> string \<Rightarrow> exn + string) \<Rightarrow> exn + registryDocument \<Rightarrow> string \<Rightarrow>
   (string \<times> varValue) list \<Rightarrow> exn + promptData" where
  "syncAndRetryGet rx synced ident variables =
     (case (case synced of
              Inl e \<Rightarrow> Inl e
            | Inr reg' \<Rightarrow> getLocal rx reg' ident variables) of
        Inl error \<Rightarrow>
          Inl (Error (''Prompt '' @ [dquote] @ ident @ [dquote]
                      @ '' not found locally and sync failed: '' @ message error))
      | Inr r \<Rightarrow> Inr r)"

definition get ::
  "(string \<Rightarrow> string \<Rightarrow> string \<Rightarrow> exn + string) \<Rightarrow> exn + registryDocument \<Rightarrow>
   registryDocument \<Rightarrow> string \<Rightarrow> (string \<times> varValue) list \<Rightarrow> getOptions \<Rightarrow> exn + promptData" where
  "get rx synced reg ident variables options =
     (if map_of reg (fst (splitId ident)) = None \<and> syncOnMissing options
      then syncAndRetryGet rx synced ident variables
      else getLocal rx reg ident variables)"

section \<open>Search (index.mjs, search)\<close>

















section \<open>Notions used in the statements and proofs\<close>

text \<open>
  \<open>mergedObject\<close> is what the loop body leaves of a local entry and of the prototype
  of its \<^verbatim>\<open>versions\<close> object, and an entry of the remote document is \<open>settled\<close>
  in a store when the local registry has an own entry for its id which merging it
  again leaves as it is.

  For the result record, against the store as it was before the call:
  \<open>remoteIsNewer\<close> holds of a remote entry whose id has an own local entry with an
  older \<open>latest\<close>, \<open>copiedVersions\<close> lists the remote versions for which
  \<^verbatim>\<open>localEntry.versions[version]\<close> is falsy and which are newer than the local
  \<open>latest\<close>, and \<open>expectedWarnings\<close> lists the warning of each of them.
\<close>

definition emptyResult :: mergeResult where
  "emptyResult = \<lparr>newPrompts = 0, updatedPrompts = 0, conflicts = [], warnings = []\<rparr>"

definition mergedObject ::
  "(string \<Rightarrow> 'n::{zero,linorder} option) \<Rightarrow> syncOptions \<Rightarrow> promptEntry \<times> versionData option \<Rightarrow>
   promptEntry \<Rightarrow> promptEntry \<times> versionData option" where
  "mergedObject num options localObject remoteEntry =
     (case mergeExisting num options [] (fst localObject) (snd localObject) remoteEntry emptyResult of
        (localEntry', proto', result') \<Rightarrow> (localEntry', proto'))"

definition settled ::
  "(string \<Rightarrow> 'n::{zero,linorder} option) \<Rightarrow> syncOptions \<Rightarrow> store \<Rightarrow> string \<times> promptEntry \<Rightarrow> bool" where
  "settled num options st e =
     (case getProperty (registry st) (fst e) of
        Own localEntry \<Rightarrow>
          mergedObject num options (localEntry, versionsPrototypes st (fst e)) (snd e)
            = (localEntry, versionsPrototypes st (fst e))
      | Inherited \<Rightarrow> False
      | Absent \<Rightarrow> False)"

definition remoteIsNewer ::
  "(string \<Rightarrow> 'n::{zero,linorder} option) \<Rightarrow> store \<Rightarrow> string \<times> promptEntry \<Rightarrow> bool" where
  "remoteIsNewer num st e =
     (case getProperty (registry st) (fst e) of
        Own localEntry \<Rightarrow> 0 < compareVersions num (latest (snd e)) (latest localEntry)
      | Inherited \<Rightarrow> False
      | Absent \<Rightarrow> False)"

definition copiedVersions ::
  "(string \<Rightarrow> 'n::{zero,linorder} option) \<Rightarrow> versionsObject \<Rightarrow> string \<Rightarrow>
   (string \<times> versionData) list \<Rightarrow> (string \<times> versionData) list" where
  "copiedVersions num localVersions localLatest remoteVersions =
     filter (\<lambda>(v, d). \<not> hasVersion localVersions v \<and> 0 < compareVersions num v localLatest)
       remoteVersions"

definition expectedWarnings ::
  "(string \<Rightarrow> 'n::{zero,linorder} option) \<Rightarrow> store \<Rightarrow> string \<times> promptEntry \<Rightarrow> string list" where
  "expectedWarnings num st e =
     (case getProperty (registry st) (fst e) of
        Own localEntry \<Rightarrow>
          if 0 < compareVersions num (latest (snd e)) (latest localEntry)
          then map (\<lambda>(v, d). ''Added newer version '' @ v @ '' to local prompt '' @ fst e)
                 (copiedVersions num (versions localEntry, versionsPrototypes st (fst e))
                    (latest localEntry) (versions (snd e)))
          else []
      | Inherited \<Rightarrow> []
      | Absent \<Rightarrow> [])"

section \<open>A small registry for concrete runs\<close>

definition exampleVersion :: "string \<Rightarrow> versionData" where
  "exampleVersion v =
     \<lparr>description = ''greeting'', prompt = ''Hello {{name}}'', category = ''general'',
      tags = [''demo''], version = v, variants = None\<rparr>"

definition exampleLocalEntry :: promptEntry where
  "exampleLocalEntry = \<lparr>latest = ''1.0.0'', versions = [(''1.0.0'', exampleVersion ''1.0.0'')]\<rparr>"

definition exampleRemoteEntry :: promptEntry where
  "exampleRemoteEntry =
     \<lparr>latest = ''2.0.0'',
      versions = [(''0.9.0'', exampleVersion ''0.9.0''), (''1.0.0'', exampleVersion ''1.0.0''),
                  (''2.0.0'', exampleVersion ''2.0.0'')]\<rparr>"

definition exampleStore :: store where
  "exampleStore =
     \<lparr>registry = [(''p'', exampleLocalEntry)],
      registryMetadata = \<lparr>localVersion = ''1.0.0'', lastSync = None, lastModified = 0,
                           syncUrl = None, schemaVersion = ''1.0''\<rparr>,
      versionsPrototypes = Map.empty\<rparr>"

definition exampleRemote :: remoteRegistry where
  "exampleRemote =
     \<lparr>prompts = [(''p'', exampleRemoteEntry),
                 (''q'', \<lparr>latest = ''1.0.0'',
                         versions = [(''1.0.0'', exampleVersion ''1.0.0'')]\<rparr>)],
      remoteSchemaVersion = Some ''2.0''\<rparr>"

text \<open>
  The same remote document with one more prompt in front, whose id is \<open>constructor\<close>.
\<close>

definition constructorRemote :: remoteRegistry where
  "constructorRemote =
     \<lparr>prompts = [(''constructor'', \<lparr>latest = ''1.0.0'',
                                   versions = [(''1.0.0'', exampleVersion ''1.0.0'')]\<rparr>),
                 (''p'', exampleRemoteEntry),
                 (''q'', \<lparr>latest = ''1.0.0'',
                         versions = [(''1.0.0'', exampleVersion ''1.0.0'')]\<rparr>)],
      remoteSchemaVersion = Some ''2.0''\<rparr>"

text \<open>A remote document in which the prompt \<open>p\<close> is followed by one whose id is \<open>toString\<close>.\<close>

definition toStringRemote :: remoteRegistry where
  "toStringRemote =
     \<lparr>prompts = [(''p'', exampleRemoteEntry),
                 (''toString'', \<lparr>latest = ''1.0.0'',
                                versions = [(''1.0.0'', exampleVersion ''1.0.0'')]\<rparr>)],
      remoteSchemaVersion = Some ''2.0''\<rparr>"

definition exampleOptions :: "mergeStrategy \<Rightarrow> syncOptions" where
  "exampleOptions m =
     \<lparr>url = ''https://github.com/registry.json'', force = False, timeout = 30000,
      errorPolicy = Throw, mergeStrategy = m, silent = False, background = False\<rparr>"

text \<open>
  A parser that knows three urls and rejects every other string, two responses, and
  two networks: \<open>exampleNet\<close> answers the first call with an HTML page and every
  later call with JSON, \<open>htmlNet\<close> answers every call with the HTML page.
\<close>

definition exampleParseURL :: "string \<Rightarrow> parsedUrl option" where
  "exampleParseURL u =
     (if u = ''https://github.com/registry.json''
        then Some \<lparr>protocol = ''https:'', hostname = ''github.com''\<rparr>
      else if u = ''http://github.com/registry.json''
        then Some \<lparr>protocol = ''http:'', hostname = ''github.com''\<rparr>
      else if u = ''https://evil.example/registry.json''
        then Some \<lparr>protocol = ''https:'', hostname = ''evil.example''\<rparr>
      else None)"

definition htmlResponse :: "nat response" where
  "htmlResponse =
     \<lparr>ok = True, status = 200, statusText = ''OK'', contentType = Some ''text/html'',
      json = Inr 5\<rparr>"

definition jsonResponse :: "nat response" where
  "jsonResponse =
     \<lparr>ok = True, status = 200, statusText = ''OK'',
      contentType = Some ''application/json; charset=utf-8'', json = Inr 7\<rparr>"

definition exampleJsonLength :: "nat \<Rightarrow> nat" where
  "exampleJsonLength d = d"

definition exampleNet :: "nat \<Rightarrow> nat fetched" where
  "exampleNet k = (if k = 1 then Resolved htmlResponse else Resolved jsonResponse)"


text \<open>
  For retrieval and search: the options of a plain \<open>get\<close>, a version with a variant
  for the \<open>gpt\<close> category, a second prompt of another category, an empty store, the
  store as a sync that ended at time \<open>2000\<close> leaves it, the metadata of its two
  prompts shortly after, a filter object and two option objects.
\<close>

definition noOptions :: getOptions where
  "noOptions = \<lparr>syncOnMissing = False, getSyncUrl = None, getTimeout = None, model = None\<rparr>"

definition variantVersion :: versionData where
  "variantVersion =
     \<lparr>description = ''greeting'', prompt = ''Hello {{name}}'', category = ''general'',
      tags = [''demo''], version = ''1.0.0'',
      variants = Some [(''gpt'', ''Dear {{name}}'')]\<rparr>"

definition variantRegistry :: registryDocument where
  "variantRegistry = [(''p'', \<lparr>latest = ''1.0.0'', versions = [(''1.0.0'', variantVersion)]\<rparr>)]"









text \<open>
  For \<open>sync\<close>: a world with an empty cache, a network that answers with the remote
  document of above, and a disk that is full.
\<close>

definition exampleWorld :: world where
  "exampleWorld =
     \<lparr>cachedFirst = None, cachedSecond = None,
      network = (\<lambda>k. Resolved \<lparr>ok = True, status = 200, statusText = ''OK'',
                               contentType = Some ''application/json'',
                               json = Inr (Document exampleRemote)\<rparr>),
      writeThrows = Some (Error ''ENOSPC: no space left on device''),
      savedAt = 1000, finishedAt = 2000\<rparr>"

definition examplePayloadLength :: "payload \<Rightarrow> nat" where
  "examplePayloadLength d = 512"

definition warnOptions :: syncOptions where
  "warnOptions = (exampleOptions PreferLocal)\<lparr>errorPolicy := Warn\<rparr>"

chapter \<open>Verification\<close>

section \<open>The version order\<close>

lemma partAt_beyond: "length ps \<le> i \<Longrightarrow> partAt ps i = 0"
  by (simp add: partAt_def)

lemma partAt_NaN: "j < length ps \<Longrightarrow> ps ! j = None \<Longrightarrow> partAt ps j = 0"
  by (simp add: partAt_def orZero_def)

lemma partAt_snoc_zero: "orZero z = 0 \<Longrightarrow> partAt (ps @ [z]) j = partAt ps j"
  by (auto simp: partAt_def nth_append less_Suc_eq)

lemma compareLoop_range: "compareLoop a b i \<in> {- 1, 0, 1}"
proof (induction a b i rule: compareLoop.induct)
  case (1 aParts bParts i)
  then show ?case
    by (subst compareLoop.simps) (simp add: Let_def)
qed

lemma compareLoop_antisym: "compareLoop a b i = - compareLoop b a i"
proof (induction a b i rule: compareLoop.induct)
  case (1 aParts bParts i)
  show ?case
  proof (cases "i < max (length aParts) (length bParts)")
    case True
    then have T: "i < max (length bParts) (length aParts)" by (simp add: max.commute)
    show ?thesis
      using True T "1.IH"
      by (subst compareLoop.simps, subst (2) compareLoop.simps) (auto simp: Let_def)
  next
    case False
    then have F: "\<not> i < max (length bParts) (length aParts)" by (simp add: max.commute)
    show ?thesis
      using False F by (subst compareLoop.simps, subst (2) compareLoop.simps) simp
  qed
qed

text \<open>
  The loop returns \<open>0\<close> exactly when the two zero-padded sequences agree from \<open>i\<close> on,
  and \<open>1\<close> exactly when the first place from \<open>i\<close> on where they differ has the larger
  number on the left.
\<close>

lemma compareLoop_zero_iff:
  "compareLoop a b i = 0 \<longleftrightarrow> (\<forall>j\<ge>i. partAt a j = partAt b j)"
proof (induction a b i rule: compareLoop.induct)
  case (1 aParts bParts i)
  show ?case
  proof (cases "i < max (length aParts) (length bParts)")
    case True
    show ?thesis
    proof (cases "partAt aParts i = partAt bParts i")
      case eq: True
      have "compareLoop aParts bParts i = compareLoop aParts bParts (i + 1)"
        using True eq by (subst compareLoop.simps) (simp add: Let_def)
      also have "\<dots> = 0 \<longleftrightarrow> (\<forall>j\<ge>i + 1. partAt aParts j = partAt bParts j)"
        using "1.IH" True eq by simp
      also have "\<dots> \<longleftrightarrow> (\<forall>j\<ge>i. partAt aParts j = partAt bParts j)"
        using eq by (metis Suc_eq_plus1 Suc_leI le_neq_implies_less le_trans le_add1 order_refl)
      finally show ?thesis .
    next
      case ne: False
      have "compareLoop aParts bParts i \<noteq> 0"
        using True ne by (subst compareLoop.simps) (auto simp: Let_def)
      then show ?thesis using ne by auto
    qed
  next
    case False
    then have "compareLoop aParts bParts i = 0"
      by (subst compareLoop.simps) simp
    moreover have "\<forall>j\<ge>i. partAt aParts j = partAt bParts j"
      using False by (simp add: partAt_beyond)
    ultimately show ?thesis by simp
  qed
qed

lemma compareLoop_one_iff:
  "compareLoop a b i = 1 \<longleftrightarrow>
     (\<exists>k\<ge>i. partAt b k < partAt a k \<and> (\<forall>j. i \<le> j \<and> j < k \<longrightarrow> partAt a j = partAt b j))"
proof (induction a b i rule: compareLoop.induct)
  case (1 aParts bParts i)
  let ?R = "\<lambda>i. \<exists>k\<ge>i. partAt bParts k < partAt aParts k \<and>
              (\<forall>j. i \<le> j \<and> j < k \<longrightarrow> partAt aParts j = partAt bParts j)"
  show ?case
  proof (cases "i < max (length aParts) (length bParts)")
    case True
    show ?thesis
    proof (cases "partAt aParts i = partAt bParts i")
      case eq: True
      have "compareLoop aParts bParts i = compareLoop aParts bParts (i + 1)"
        using True eq by (subst compareLoop.simps) (simp add: Let_def)
      also have "\<dots> = 1 \<longleftrightarrow> ?R (i + 1)"
        using "1.IH" True eq by simp
      also have "\<dots> \<longleftrightarrow> ?R i"
      proof
        assume "?R (i + 1)"
        then obtain k where k: "i + 1 \<le> k" "partAt bParts k < partAt aParts k"
          "\<forall>j. i + 1 \<le> j \<and> j < k \<longrightarrow> partAt aParts j = partAt bParts j" by blast
        have "\<forall>j. i \<le> j \<and> j < k \<longrightarrow> partAt aParts j = partAt bParts j"
        proof (intro allI impI)
          fix j assume "i \<le> j \<and> j < k"
          then show "partAt aParts j = partAt bParts j"
            using k(3) eq by (cases "j = i") auto
        qed
        with k show "?R i" by (intro exI[of _ k]) simp
      next
        assume "?R i"
        then obtain k where k: "i \<le> k" "partAt bParts k < partAt aParts k"
          "\<forall>j. i \<le> j \<and> j < k \<longrightarrow> partAt aParts j = partAt bParts j" by blast
        from k(2) eq have "k \<noteq> i" by auto
        with k(1) have "i + 1 \<le> k" by simp
        with k show "?R (i + 1)" by (intro exI[of _ k]) simp
      qed
      finally show ?thesis .
    next
      case ne: False
      show ?thesis
      proof (cases "partAt bParts i < partAt aParts i")
        case gt: True
        have "compareLoop aParts bParts i = 1"
          using True gt by (subst compareLoop.simps) (simp add: Let_def)
        moreover have "?R i" using gt by (intro exI[of _ i]) auto
        ultimately show ?thesis by simp
      next
        case ngt: False
        with ne have lt: "partAt aParts i < partAt bParts i" by simp
        have "compareLoop aParts bParts i = - 1"
          using True lt ngt by (subst compareLoop.simps) (simp add: Let_def)
        moreover have "\<not> ?R i"
        proof
          assume "?R i"
          then obtain k where k: "i \<le> k" "partAt bParts k < partAt aParts k"
            "\<forall>j. i \<le> j \<and> j < k \<longrightarrow> partAt aParts j = partAt bParts j" by blast
          show False
          proof (cases "k = i")
            case True with k(2) ngt show False by simp
          next
            case False with k(1) have "i < k" by simp
            with k(3) ne show False by simp
          qed
        qed
        ultimately show ?thesis by simp
      qed
    qed
  next
    case False
    then have "compareLoop aParts bParts i = 0"
      by (subst compareLoop.simps) simp
    moreover have "\<forall>j\<ge>i. partAt aParts j = partAt bParts j"
      using False by (simp add: partAt_beyond)
    then have "\<not> ?R i" by (metis less_irrefl)
    ultimately show ?thesis by simp
  qed
qed

text \<open>
  Transitivity on sequences: look at the first place where the three sequences are
  not all equal.
\<close>

lemma lex_not_greater_trans:
  fixes f g h :: "nat \<Rightarrow> 'n::linorder"
  assumes fg: "\<And>k. \<not> (g k < f k \<and> (\<forall>j<k. f j = g j))"
    and gh: "\<And>k. \<not> (h k < g k \<and> (\<forall>j<k. g j = h j))"
  shows "\<not> (h k < f k \<and> (\<forall>j<k. f j = h j))"
proof
  assume A: "h k < f k \<and> (\<forall>j<k. f j = h j)"
  define P where "P m \<longleftrightarrow> \<not> (f m = g m \<and> g m = h m)" for m
  have "P k" using A by (auto simp: P_def)
  define m where "m = (LEAST m. P m)"
  have Pm: "P m" unfolding m_def using \<open>P k\<close> by (rule LeastI)
  have mk: "m \<le> k" unfolding m_def using \<open>P k\<close> by (rule Least_le)
  have before: "\<And>j. j < m \<Longrightarrow> f j = g j \<and> g j = h j"
    using not_less_Least[of _ P] unfolding m_def P_def by blast
  have 1: "f m \<le> g m" using fg[of m] before by auto
  have 2: "g m \<le> h m" using gh[of m] before by auto
  show False
  proof (cases "m = k")
    case True
    with 1 2 A show False by auto
  next
    case False
    with mk have "m < k" by simp
    with A have "f m = h m" by simp
    with 1 2 have "f m = g m \<and> g m = h m" by auto
    with Pm show False by (simp add: P_def)
  qed
qed

lemma compareVersions_range: "compareVersions num a b \<in> {- 1, 0, 1}"
  unfolding compareVersions_def Let_def by (rule compareLoop_range)

lemma compareVersions_refl: "compareVersions num a a = 0"
  unfolding compareVersions_def Let_def by (simp add: compareLoop_zero_iff)

lemma compareVersions_antisym: "compareVersions num a b = - compareVersions num b a"
  unfolding compareVersions_def Let_def by (rule compareLoop_antisym)

lemma compareVersions_zero_iff:
  "compareVersions num a b = 0 \<longleftrightarrow>
     (\<forall>j. partAt (map num (split_dot a)) j = partAt (map num (split_dot b)) j)"
  unfolding compareVersions_def Let_def by (simp add: compareLoop_zero_iff)

lemma compareVersions_trans:
  assumes "compareVersions num a b \<le> 0" "compareVersions num b c \<le> 0"
  shows "compareVersions num a c \<le> 0"
proof -
  let ?f = "partAt (map num (split_dot a))"
  let ?g = "partAt (map num (split_dot b))"
  let ?h = "partAt (map num (split_dot c))"
  have n1: "compareLoop (map num (split_dot a)) (map num (split_dot b)) 0 \<noteq> 1"
    using assms(1) by (simp add: compareVersions_def Let_def)
  have n2: "compareLoop (map num (split_dot b)) (map num (split_dot c)) 0 \<noteq> 1"
    using assms(2) by (simp add: compareVersions_def Let_def)
  have fg: "\<And>k. \<not> (?g k < ?f k \<and> (\<forall>j<k. ?f j = ?g j))"
    using n1 unfolding compareLoop_one_iff by auto
  have gh: "\<And>k. \<not> (?h k < ?g k \<and> (\<forall>j<k. ?g j = ?h j))"
    using n2 unfolding compareLoop_one_iff by auto
  have "\<And>k. \<not> (?h k < ?f k \<and> (\<forall>j<k. ?f j = ?h j))"
    using fg gh by (rule lex_not_greater_trans)
  then have "compareLoop (map num (split_dot a)) (map num (split_dot c)) 0 \<noteq> 1"
    unfolding compareLoop_one_iff by auto
  then show ?thesis
    using compareLoop_range[of "map num (split_dot a)" "map num (split_dot c)" 0]
    by (auto simp: compareVersions_def Let_def)
qed

lemma compareVersions_trans_strict:
  assumes "0 < compareVersions num a b" "0 < compareVersions num b c"
  shows "0 < compareVersions num a c"
proof (rule ccontr)
  assume "\<not> 0 < compareVersions num a c"
  then have ac: "compareVersions num a c \<le> 0" by simp
  have cb: "compareVersions num c b \<le> 0"
    using assms(2) compareVersions_antisym[of num c b] by simp
  from ac cb have "compareVersions num a b \<le> 0" by (rule compareVersions_trans)
  with assms(1) show False by simp
qed

lemma split_on_nonempty: "split_on sep s \<noteq> []"
  by (induction s) (auto split: list.splits)

lemma split_on_append_sep:
  "split_on sep (a @ sep # b) = split_on sep a @ split_on sep b"
proof (induction a)
  case Nil
  then show ?case by simp
next
  case (Cons c cs)
  then show ?case
    using split_on_nonempty[of sep cs] by (auto split: list.splits)
qed

lemma compareVersions_pad:
  assumes "orZero (num ''0'') = 0"
  shows "compareVersions num a (a @ ''.0'') = 0"
proof -
  have "split_dot (a @ ''.0'') = split_dot a @ [''0'']"
    unfolding split_dot_def by (simp add: split_on_append_sep)
  then show ?thesis
    using assms by (simp add: compareVersions_zero_iff partAt_snoc_zero)
qed

text \<open>
  Claim C3. \<open>compareVersions\<close> is a total preorder on version strings that respects
  equality of the zero-padded number sequences: it is reflexive, antisymmetric in the
  sense \<open>compare a b = - compare b a\<close> and transitive, returns \<open>-1\<close>, \<open>0\<close> or \<open>1\<close> on every
  pair of strings (there is no failing branch), returns \<open>0\<close> exactly when the padded
  sequences agree, reads a missing or non-numeric component as \<open>0\<close>, and equates a
  version with the same version followed by \<open>.0\<close>; \<open>compare("1.2","1.2.0") = 0\<close> and
  \<open>compare("2.0.0","1.9.9") = 1\<close>.
\<close>

theorem compareVersions_total_preorder:
  fixes num :: "string \<Rightarrow> 'n::{zero,linorder} option"
  shows "compareVersions num a a = 0
    \<and> compareVersions num a b = - compareVersions num b a
    \<and> compareVersions num a b \<in> {- 1, 0, 1}
    \<and> (compareVersions num a b \<le> 0 \<and> compareVersions num b c \<le> 0
         \<longrightarrow> compareVersions num a c \<le> 0)
    \<and> (0 < compareVersions num a b \<and> 0 < compareVersions num b c
         \<longrightarrow> 0 < compareVersions num a c)
    \<and> (compareVersions num a b = 0 \<longleftrightarrow>
         (\<forall>j. partAt (map num (split_dot a)) j = partAt (map num (split_dot b)) j))
    \<and> (\<forall>j. length (split_dot a) \<le> j \<or> num (split_dot a ! j) = None
         \<longrightarrow> partAt (map num (split_dot a)) j = 0)
    \<and> (orZero (num ''0'') = 0 \<longrightarrow> compareVersions num a (a @ ''.0'') = 0)
    \<and> compareVersions Number_dec ''1.2'' ''1.2.0'' = 0
    \<and> compareVersions Number_dec ''2.0.0'' ''1.9.9'' = 1"
proof -
  have pad0: "\<forall>j. length (split_dot a) \<le> j \<or> num (split_dot a ! j) = None
         \<longrightarrow> partAt (map num (split_dot a)) j = 0"
  proof (intro allI impI)
    fix j
    assume "length (split_dot a) \<le> j \<or> num (split_dot a ! j) = None"
    then show "partAt (map num (split_dot a)) j = 0"
      by (cases "j < length (split_dot a)") (auto simp: partAt_beyond partAt_NaN)
  qed
  have e1: "compareVersions Number_dec ''1.2'' ''1.2.0'' = 0" by code_simp
  have e2: "compareVersions Number_dec ''2.0.0'' ''1.9.9'' = 1" by code_simp
  show ?thesis
    using compareVersions_refl[of num a] compareVersions_antisym[of num a b]
      compareVersions_range[of num a b] compareVersions_trans[of num a b c]
      compareVersions_trans_strict[of num a b c] compareVersions_zero_iff[of num a b]
      pad0 compareVersions_pad[of num a] e1 e2
    by blast
qed

theorem compareVersions_total_preorder_witness:
  "compareVersions Number_dec ''1.x'' ''1.0.1'' \<le> 0
   \<and> compareVersions Number_dec ''1.0.1'' ''1.1'' \<le> 0
   \<and> compareVersions Number_dec ''1.x'' ''1.1'' \<le> 0
   \<and> 0 < compareVersions Number_dec ''1.1'' ''1.0.1''
   \<and> 0 < compareVersions Number_dec ''1.0.1'' ''1.x''
   \<and> 0 < compareVersions Number_dec ''1.1'' ''1.x''
   \<and> Number_dec (split_dot ''1.x'' ! 1) = None
   \<and> partAt (map Number_dec (split_dot ''1.x'')) 1 = 0
   \<and> orZero (Number_dec ''0'') = 0
   \<and> compareVersions Number_dec ''1.x'' ''1.x.0'' = 0"
proof -
  have h1: "compareVersions Number_dec ''1.x'' ''1.0.1'' \<le> 0" by code_simp
  have h2: "compareVersions Number_dec ''1.0.1'' ''1.1'' \<le> 0" by code_simp
  have h3: "0 < compareVersions Number_dec ''1.1'' ''1.0.1''" by code_simp
  have h4: "0 < compareVersions Number_dec ''1.0.1'' ''1.x''" by code_simp
  have h5: "Number_dec (split_dot ''1.x'' ! 1) = None" by code_simp
  have h6: "orZero (Number_dec ''0'') = 0" by code_simp
  have c1: "compareVersions Number_dec ''1.x'' ''1.1'' \<le> 0"
    using compareVersions_total_preorder[of Number_dec "''1.x''" "''1.0.1''" "''1.1''"] h1 h2
    by blast
  have c2: "0 < compareVersions Number_dec ''1.1'' ''1.x''"
    using compareVersions_total_preorder[of Number_dec "''1.1''" "''1.0.1''" "''1.x''"] h3 h4
    by blast
  have c3: "partAt (map Number_dec (split_dot ''1.x'')) 1 = 0"
    using compareVersions_total_preorder[of Number_dec "''1.x''" "''1.0.1''" "''1.1''"] h5
    by blast
  have c4: "compareVersions Number_dec ''1.x'' (''1.x'' @ ''.0'') = 0"
    using compareVersions_total_preorder[of Number_dec "''1.x''" "''1.0.1''" "''1.1''"] h6
    by blast
  from h1 h2 h3 h4 h5 h6 c1 c2 c3 c4 show ?thesis by simp
qed

section \<open>The merge\<close>

subsection \<open>Reading and writing a versions object\<close>

lemma proto_in_names: "''__proto__'' \<in> set objectPrototypeNames"
  by (simp add: objectPrototypeNames_def)

lemma hasVersion_own: "map_of (fst lv) v \<noteq> None \<Longrightarrow> hasVersion lv v"
  by (auto simp: hasVersion_def split: option.splits)

lemma hasVersion_inherited: "v \<in> set objectPrototypeNames \<Longrightarrow> hasVersion lv v"
  by (auto simp: hasVersion_def split: option.splits)

lemma assignVersion_absent:
  "\<not> hasVersion lv v \<Longrightarrow> assignVersion v d lv = (AList.update v d (fst lv), snd lv)"
  using hasVersion_inherited[of v lv] proto_in_names by (auto simp: assignVersion_def)

lemma hasVersion_update:
  "hasVersion lv v \<Longrightarrow> hasVersion (AList.update k d (fst lv), snd lv) v"
  by (auto simp: hasVersion_def update_conv' split: option.splits)

lemma hasVersion_assigned: "hasVersion (assignVersion k d lv) k"
  by (auto simp: assignVersion_def hasVersion_own update_conv' hasVersion_inherited proto_in_names)

lemma own_assignVersion:
  "map_of (fst lv) v \<noteq> None \<Longrightarrow> map_of (fst (assignVersion k d lv)) v \<noteq> None"
  by (auto simp: assignVersion_def update_conv')

lemma snd_addMissing: "snd (addMissing lv rv) = snd lv"
  by (induction lv rv rule: addMissing.induct) (auto simp: assignVersion_absent)

lemma hasVersion_addMissing_mono: "hasVersion lv v \<Longrightarrow> hasVersion (addMissing lv rv) v"
proof (induction lv rv rule: addMissing.induct)
  case (1 lv) then show ?case by simp
next
  case (2 lv ver verData rest)
  show ?case
  proof (cases "hasVersion lv ver")
    case True then show ?thesis using 2 by simp
  next
    case False
    have "hasVersion (assignVersion ver verData lv) v"
      using False "2.prems" by (simp add: assignVersion_absent hasVersion_update)
    then show ?thesis using False "2.IH"(1) by simp
  qed
qed

lemma hasVersion_addMissing_keys: "v \<in> fst ` set rv \<Longrightarrow> hasVersion (addMissing lv rv) v"
proof (induction lv rv rule: addMissing.induct)
  case (1 lv) then show ?case by simp
next
  case (2 lv ver verData rest)
  show ?case
  proof (cases "v \<in> fst ` set rest")
    case True then show ?thesis using "2.IH" by auto
  next
    case False
    with "2.prems" have v: "v = ver" by auto
    show ?thesis
    proof (cases "hasVersion lv ver")
      case True then show ?thesis using v by (simp add: hasVersion_addMissing_mono)
    next
      case no: False
      have "hasVersion (assignVersion ver verData lv) v" unfolding v by (rule hasVersion_assigned)
      then show ?thesis using no by (simp add: hasVersion_addMissing_mono)
    qed
  qed
qed

lemma addMissing_fix:
  "(\<And>v. v \<in> fst ` set rv \<Longrightarrow> hasVersion lv v) \<Longrightarrow> addMissing lv rv = lv"
proof (induction rv arbitrary: lv)
  case Nil then show ?case by simp
next
  case (Cons e rest)
  obtain ver verData where e: "e = (ver, verData)" by (cases e)
  have "hasVersion lv ver" using Cons.prems[of ver] e by simp
  moreover have "addMissing lv rest = lv" using Cons.prems by (intro Cons.IH) simp
  ultimately show ?case using e by auto
qed

lemma addMissing_idem: "addMissing (addMissing lv rv) rv = addMissing lv rv"
  by (rule addMissing_fix) (rule hasVersion_addMissing_keys)

lemma addMissing_self: "addMissing (rv, proto) rv = (rv, proto)"
  by (rule addMissing_fix) (simp add: hasVersion_own map_of_eq_None_iff)

lemma own_copyAll_mono:
  "map_of (fst lv) v \<noteq> None \<Longrightarrow> map_of (fst (copyAll lv rv)) v \<noteq> None"
  by (induction lv rv rule: copyAll.induct) (auto simp: own_assignVersion)

lemma hasVersion_copyAll_keys: "v \<in> fst ` set rv \<Longrightarrow> hasVersion (copyAll lv rv) v"
proof (cases "v \<in> set objectPrototypeNames")
  case True then show ?thesis by (rule hasVersion_inherited)
next
  case plain: False
  assume "v \<in> fst ` set rv"
  then have "map_of (fst (copyAll lv rv)) v \<noteq> None"
  proof (induction lv rv rule: copyAll.induct)
    case (1 lv) then show ?case by simp
  next
    case (2 lv ver verData rest)
    show ?case
    proof (cases "v \<in> fst ` set rest")
      case True then show ?thesis using "2.IH" by simp
    next
      case False
      with "2.prems" have v: "v = ver" by auto
      have "ver \<noteq> ''__proto__''" using plain v proto_in_names by auto
      then have "map_of (fst (assignVersion ver verData lv)) v \<noteq> None"
        using v by (simp add: assignVersion_def update_conv')
      then show ?thesis by (simp add: own_copyAll_mono)
    qed
  qed
  then show ?thesis by (rule hasVersion_own)
qed

lemma snd_fst_addNewer: "snd (fst (addNewer num p ll lv ws rv)) = snd lv"
  by (induction num p ll lv ws rv rule: addNewer.induct) (auto simp: assignVersion_absent)

lemma hasVersion_addNewer_mono:
  "hasVersion lv v \<Longrightarrow> hasVersion (fst (addNewer num p ll lv ws rv)) v"
proof (induction num p ll lv ws rv rule: addNewer.induct)
  case (1 num p ll lv ws) then show ?case by simp
next
  case (2 num p ll lv ws ver verData rest)
  show ?case
  proof (cases "\<not> hasVersion lv ver \<and> compareVersions num ver ll = 1")
    case True
    have "hasVersion (assignVersion ver verData lv) v"
      using True "2.prems" by (simp add: assignVersion_absent hasVersion_update)
    then show ?thesis using True "2.IH"(1) by simp
  next
    case False then show ?thesis using 2 by auto
  qed
qed

lemma hasVersion_addNewer_keys:
  "v \<in> fst ` set rv \<Longrightarrow>
   hasVersion (fst (addNewer num p ll lv ws rv)) v \<or> compareVersions num v ll \<noteq> 1"
proof (induction num p ll lv ws rv rule: addNewer.induct)
  case (1 num p ll lv ws) then show ?case by simp
next
  case (2 num p ll lv ws ver verData rest)
  show ?case
  proof (cases "v \<in> fst ` set rest")
    case True then show ?thesis using "2.IH" by auto
  next
    case False
    with "2.prems" have v: "v = ver" by auto
    show ?thesis
    proof (cases "\<not> hasVersion lv ver \<and> compareVersions num ver ll = 1")
      case True
      have "hasVersion (assignVersion ver verData lv) v" unfolding v by (rule hasVersion_assigned)
      then show ?thesis using True by (simp add: hasVersion_addNewer_mono)
    next
      case no: False
      then show ?thesis using v by (auto simp: hasVersion_addNewer_mono)
    qed
  qed
qed

lemma addNewer_fix:
  "(\<And>v. v \<in> fst ` set rv \<Longrightarrow> hasVersion lv v \<or> compareVersions num v ll \<noteq> 1) \<Longrightarrow>
   addNewer num p ll lv ws rv = (lv, ws)"
proof (induction rv arbitrary: lv)
  case Nil then show ?case by simp
next
  case (Cons e rest)
  obtain ver verData where e: "e = (ver, verData)" by (cases e)
  have "hasVersion lv ver \<or> compareVersions num ver ll \<noteq> 1"
    using Cons.prems[of ver] e by simp
  moreover have "addNewer num p ll lv ws rest = (lv, ws)"
    using Cons.prems by (intro Cons.IH) simp
  ultimately show ?case using e by auto
qed

subsection \<open>One entry\<close>

lemma fst_addNewer_warns:
  "fst (addNewer num p ll lv ws rv) = fst (addNewer num p' ll lv ws' rv)"
  by (induction num p ll lv ws rv arbitrary: ws' rule: addNewer.induct) auto

lemma mergeExisting_object:
  "(case mergeExisting num options p le proto re r of (le', proto', r') \<Rightarrow> (le', proto'))
     = mergedObject num options (le, proto) re"
  using fst_addNewer_warns[of num p "latest le" "(versions le, proto)" "warnings r" "versions re"
      "[]" "warnings emptyResult"]
  by (simp add: mergedObject_def mergeExisting_def Let_def split_beta)

lemma mergeExisting_newPrompts:
  "newPrompts (snd (snd (mergeExisting num options p le proto re r))) = newPrompts r"
  by (simp add: mergeExisting_def Let_def split_beta)

lemma compareVersions_flip: "compareVersions num a b < 0 \<longleftrightarrow> 0 < compareVersions num b a"
  using compareVersions_antisym[of num a b] by simp

lemma mergedObject_fix:
  assumes "\<And>v. v \<in> fst ` set (versions re) \<Longrightarrow> hasVersion (versions le, proto) v"
    and "\<not> compareVersions num (latest le) (latest re) < 0"
  shows "mergedObject num options (le, proto) re = (le, proto)"
  using assms(2) addMissing_fix[of "versions re" "(versions le, proto)", OF assms(1)]
  by (simp add: mergedObject_def mergeExisting_def Let_def)

lemma mergedObject_self: "mergedObject num options (re, proto) re = (re, proto)"
  by (rule mergedObject_fix) (simp_all add: hasVersion_own map_of_eq_None_iff compareVersions_refl)

lemma mergedObject_idem:
  "mergedObject num options (mergedObject num options lo re) re = mergedObject num options lo re"
proof -
  obtain le proto where lo: "lo = (le, proto)" by (cases lo)
  let ?c = "compareVersions num (latest le) (latest re)"
  consider (ge) "\<not> ?c < 0" | (remote) "?c < 0" "mergeStrategy options = PreferRemote"
    | (newer) "?c < 0" "mergeStrategy options \<noteq> PreferRemote" by blast
  then show ?thesis
  proof cases
    case ge
    obtain vs p' where a: "addMissing (versions le, proto) (versions re) = (vs, p')"
      by (cases "addMissing (versions le, proto) (versions re)")
    have m: "mergedObject num options (le, proto) re = (le\<lparr>versions := vs\<rparr>, p')"
      using ge a by (simp add: mergedObject_def mergeExisting_def Let_def)
    have "mergedObject num options (le\<lparr>versions := vs\<rparr>, p') re = (le\<lparr>versions := vs\<rparr>, p')"
    proof (rule mergedObject_fix)
      fix v assume "v \<in> fst ` set (versions re)"
      then have "hasVersion (addMissing (versions le, proto) (versions re)) v"
        by (rule hasVersion_addMissing_keys)
      then show "hasVersion (versions (le\<lparr>versions := vs\<rparr>), p') v" using a by simp
    next
      show "\<not> compareVersions num (latest (le\<lparr>versions := vs\<rparr>)) (latest re) < 0" using ge by simp
    qed
    then show ?thesis using m lo by simp
  next
    case remote
    obtain vs p' where a: "copyAll (versions le, proto) (versions re) = (vs, p')"
      by (cases "copyAll (versions le, proto) (versions re)")
    have m: "mergedObject num options (le, proto) re
               = (le\<lparr>latest := latest re, versions := vs\<rparr>, p')"
      using remote a by (simp add: mergedObject_def mergeExisting_def Let_def)
    have "mergedObject num options (le\<lparr>latest := latest re, versions := vs\<rparr>, p') re
            = (le\<lparr>latest := latest re, versions := vs\<rparr>, p')"
    proof (rule mergedObject_fix)
      fix v assume "v \<in> fst ` set (versions re)"
      then have "hasVersion (copyAll (versions le, proto) (versions re)) v"
        by (rule hasVersion_copyAll_keys)
      then show "hasVersion (versions (le\<lparr>latest := latest re, versions := vs\<rparr>), p') v"
        using a by simp
    next
      show "\<not> compareVersions num (latest (le\<lparr>latest := latest re, versions := vs\<rparr>)) (latest re) < 0"
        by (simp add: compareVersions_refl)
    qed
    then show ?thesis using m lo by simp
  next
    case newer
    obtain vs p' ws where a:
      "addNewer num [] (latest le) (versions le, proto) [] (versions re) = ((vs, p'), ws)"
      by (cases "addNewer num [] (latest le) (versions le, proto) [] (versions re)") auto
    have m: "mergedObject num options (le, proto) re = (le\<lparr>versions := vs\<rparr>, p')"
      using newer a by (simp add: mergedObject_def mergeExisting_def Let_def emptyResult_def)
    have fixd: "addNewer num [] (latest le) (vs, p') [] (versions re) = ((vs, p'), [])"
    proof (rule addNewer_fix)
      fix v assume "v \<in> fst ` set (versions re)"
      then have "hasVersion (fst (addNewer num [] (latest le) (versions le, proto) [] (versions re))) v
                 \<or> compareVersions num v (latest le) \<noteq> 1"
        by (rule hasVersion_addNewer_keys)
      then show "hasVersion (vs, p') v \<or> compareVersions num v (latest le) \<noteq> 1" using a by simp
    qed
    have "mergedObject num options (le\<lparr>versions := vs\<rparr>, p') re = (le\<lparr>versions := vs\<rparr>, p')"
      using newer fixd by (simp add: mergedObject_def mergeExisting_def Let_def emptyResult_def)
    then show ?thesis using m lo by simp
  qed
qed

subsection \<open>One pass of the outer loop\<close>

lemma getProperty_update:
  "getProperty (AList.update k v reg) k' = (if k' = k then Own v else getProperty reg k')"
  by (simp add: getProperty_def update_conv')

lemma getProperty_Own: "getProperty reg k = Own v \<longleftrightarrow> map_of reg k = Some v"
  by (auto simp: getProperty_def split: option.splits)

lemma mergeStep_Inherited:
  "getProperty (registry st) (fst e) = Inherited \<Longrightarrow>
   mergeStep num md options e (st, r)
     = Inl (TypeError ''Cannot read properties of undefined (reading 'undefined')'')"
  by (simp add: mergeStep_def split_beta)

lemma mergeStep_Inl:
  "mergeStep num md options e (st, r) = Inl err \<Longrightarrow>
   getProperty (registry st) (fst e) = Inherited
   \<and> err = TypeError ''Cannot read properties of undefined (reading 'undefined')''"
  by (auto simp: mergeStep_def split_beta split: property.splits)

lemma mergeStep_Inr:
  assumes "mergeStep num md options e (st, r) = Inr (st', r')"
  shows "settled num options st' e"
    and "\<And>k. k \<noteq> fst e \<Longrightarrow> getProperty (registry st') k = getProperty (registry st) k"
    and "\<And>k. k \<noteq> fst e \<Longrightarrow> versionsPrototypes st' k = versionsPrototypes st k"
proof -
  obtain promptId re where e: "e = (promptId, re)" by (cases e)
  show "settled num options st' e"
  proof (cases "getProperty (registry st) promptId")
    case Absent
    then have st': "st' = st\<lparr>registry := AList.update promptId re (registry st),
                             versionsPrototypes := (versionsPrototypes st)(promptId := None)\<rparr>"
      using assms e by (simp add: mergeStep_def)
    show ?thesis
      unfolding settled_def e st' by (simp add: getProperty_update mergedObject_self)
  next
    case Inherited
    then show ?thesis using assms e by (simp add: mergeStep_def)
  next
    case (Own le)
    obtain le' proto' where m:
      "mergedObject num options (le, versionsPrototypes st promptId) re = (le', proto')"
      by (cases "mergedObject num options (le, versionsPrototypes st promptId) re")
    have "(case mergeExisting num options promptId le (versionsPrototypes st promptId) re r of
             (le', proto', r') \<Rightarrow> (le', proto')) = (le', proto')"
      unfolding mergeExisting_object by (rule m)
    then have reg: "registry st' = AList.update promptId le' (registry st)"
      and pro: "versionsPrototypes st' = (versionsPrototypes st)(promptId := proto')"
      using assms e Own by (auto simp: mergeStep_def split_beta)
    have "mergedObject num options (le', proto') re = (le', proto')"
      using mergedObject_idem[of num options "(le, versionsPrototypes st promptId)" re] m by simp
    then show ?thesis
      unfolding settled_def e by (simp add: reg pro getProperty_update)
  qed
  show "\<And>k. k \<noteq> fst e \<Longrightarrow> getProperty (registry st') k = getProperty (registry st) k"
    using assms e
    by (auto simp: mergeStep_def split_beta getProperty_update split: property.splits)
  show "\<And>k. k \<noteq> fst e \<Longrightarrow> versionsPrototypes st' k = versionsPrototypes st k"
    using assms e
    by (auto simp: mergeStep_def split_beta split: property.splits)
qed

lemma mergeStep_newPrompts_settled:
  assumes "settled num options st e"
  shows "\<exists>st' r'. mergeStep num md options e (st, r) = Inr (st', r')
           \<and> registry st' = registry st \<and> versionsPrototypes st' = versionsPrototypes st
           \<and> newPrompts r' = newPrompts r"
proof -
  obtain promptId re where e: "e = (promptId, re)" by (cases e)
  from assms obtain le where own: "getProperty (registry st) promptId = Own le"
    and fx: "mergedObject num options (le, versionsPrototypes st promptId) re
               = (le, versionsPrototypes st promptId)"
    unfolding settled_def e by (auto split: property.splits)
  have look: "map_of (registry st) promptId = Some le" using own by (simp add: getProperty_Own)
  obtain le' proto' r' where m:
    "mergeExisting num options promptId le (versionsPrototypes st promptId) re r = (le', proto', r')"
    by (cases "mergeExisting num options promptId le (versionsPrototypes st promptId) re r") auto
  have "(le', proto') = (le, versionsPrototypes st promptId)"
    using mergeExisting_object[of num options promptId le "versionsPrototypes st promptId" re r] m fx
    by simp
  then have le': "le' = le" and proto': "proto' = versionsPrototypes st promptId" by simp_all
  have np: "newPrompts r' = newPrompts r"
    using mergeExisting_newPrompts[of num options promptId le "versionsPrototypes st promptId" re r] m
    by simp
  have upd: "AList.update promptId le (registry st) = registry st"
    using look by (rule update_triv)
  show ?thesis
    using own m np upd unfolding e
    by (simp add: mergeStep_def le' proto')
qed

lemma settled_cong:
  "getProperty (registry st') (fst e) = getProperty (registry st) (fst e) \<Longrightarrow>
   versionsPrototypes st' (fst e) = versionsPrototypes st (fst e) \<Longrightarrow>
   settled num options st' e = settled num options st e"
  by (simp add: settled_def split: property.splits)

subsection \<open>Two merges of one document\<close>

text \<open>The loop leaves alone every id it does not visit.\<close>

lemma mergeLoop_other:
  assumes "k \<notin> fst ` set es" and "mergeLoop num md options es (st, r) = (st1, o1)"
  shows "getProperty (registry st1) k = getProperty (registry st) k
       \<and> versionsPrototypes st1 k = versionsPrototypes st k"
  using assms
proof (induction es arbitrary: st r)
  case Nil
  then show ?case by simp
next
  case (Cons e es)
  show ?case
  proof (cases "mergeStep num md options e (st, r)")
    case (Inl err)
    then show ?thesis using Cons.prems by simp
  next
    case (Inr acc)
    obtain st' r' where acc: "acc = (st', r')" by (cases acc)
    have ne: "k \<noteq> fst e" and nin: "k \<notin> fst ` set es" using Cons.prems(1) by auto
    have loop: "mergeLoop num md options es (st', r') = (st1, o1)"
      using Cons.prems(2) Inr acc by simp
    have "getProperty (registry st1) k = getProperty (registry st') k
       \<and> versionsPrototypes st1 k = versionsPrototypes st' k"
      using nin loop by (rule Cons.IH)
    then show ?thesis
      using mergeStep_Inr(2,3)[OF Inr[unfolded acc], of k] ne by simp
  qed
qed

text \<open>
  The first merge: it stops at the first id that reads an inherited value, if there is
  one, and every entry it has passed is settled.
\<close>

lemma mergeLoop_first:
  assumes "distinct (map fst es)" and "mergeLoop num md options es (st, r) = (st1, o1)"
  shows "\<exists>pre post. es = pre @ post \<and> (\<forall>x\<in>set pre. settled num options st1 x)
           \<and> (case o1 of
                 Inr r1 \<Rightarrow> post = []
               | Inl err \<Rightarrow> post \<noteq> [] \<and> getProperty (registry st1) (fst (hd post)) = Inherited
                     \<and> err = TypeError ''Cannot read properties of undefined (reading 'undefined')'')"
  using assms
proof (induction es arbitrary: st r)
  case Nil
  then show ?case by auto
next
  case (Cons e es)
  show ?case
  proof (cases "mergeStep num md options e (st, r)")
    case (Inl err)
    then have "st1 = st" "o1 = Inl err" using Cons.prems(2) by simp_all
    then show ?thesis
      using mergeStep_Inl[OF Inl]
      by (intro exI[of _ "[]"] exI[of _ "e # es"]) simp
  next
    case (Inr acc)
    obtain st' r' where acc: "acc = (st', r')" by (cases acc)
    have d: "distinct (map fst es)" and nin: "fst e \<notin> fst ` set es" using Cons.prems(1) by auto
    have loop: "mergeLoop num md options es (st', r') = (st1, o1)"
      using Cons.prems(2) Inr acc by simp
    from Cons.IH[OF d loop] obtain pre post where pp: "es = pre @ post"
      and s: "\<forall>x\<in>set pre. settled num options st1 x"
      and o: "(case o1 of
                 Inr r1 \<Rightarrow> post = []
               | Inl err \<Rightarrow> post \<noteq> [] \<and> getProperty (registry st1) (fst (hd post)) = Inherited
                     \<and> err = TypeError ''Cannot read properties of undefined (reading 'undefined')'')"
      by blast
    have "settled num options st' e" using Inr acc by (simp add: mergeStep_Inr(1))
    moreover have "getProperty (registry st1) (fst e) = getProperty (registry st') (fst e)
       \<and> versionsPrototypes st1 (fst e) = versionsPrototypes st' (fst e)"
      using nin loop by (rule mergeLoop_other)
    ultimately have "settled num options st1 e"
      using settled_cong[of st1 e st' num options] by simp
    then show ?thesis
      using pp s o by (intro exI[of _ "e # pre"] exI[of _ post]) simp
  qed
qed

text \<open>The second merge passes the settled entries and changes nothing.\<close>

lemma mergeLoop_second:
  assumes "\<forall>x\<in>set pre. settled num options st x"
  shows "\<exists>st' r'. mergeLoop num md options (pre @ post) (st, r)
                     = mergeLoop num md options post (st', r')
           \<and> registry st' = registry st \<and> versionsPrototypes st' = versionsPrototypes st
           \<and> newPrompts r' = newPrompts r"
  using assms
proof (induction pre arbitrary: st r)
  case Nil
  then show ?case by auto
next
  case (Cons e pre)
  have "settled num options st e" using Cons.prems by simp
  then obtain st' r' where step: "mergeStep num md options e (st, r) = Inr (st', r')"
    and reg: "registry st' = registry st" and pro: "versionsPrototypes st' = versionsPrototypes st"
    and np: "newPrompts r' = newPrompts r"
    using mergeStep_newPrompts_settled[of num options st e md r] by blast
  have "\<forall>x\<in>set pre. settled num options st' x"
  proof
    fix x assume "x \<in> set pre"
    then have "settled num options st x" using Cons.prems by simp
    then show "settled num options st' x"
      using settled_cong[of st' x st num options] reg pro by simp
  qed
  from Cons.IH[OF this, of r'] obtain st'' r'' where
    "mergeLoop num md options (pre @ post) (st', r') = mergeLoop num md options post (st'', r'')"
    and "registry st'' = registry st'" and "versionsPrototypes st'' = versionsPrototypes st'"
    and "newPrompts r'' = newPrompts r'"
    by blast
  then show ?case using step reg pro np by (intro exI[of _ st''] exI[of _ r'']) simp
qed

text \<open>
  The merge throws exactly when the remote document holds an id for which the local
  registry, as it is before the call, reads a value inherited from
  \<^verbatim>\<open>Object.prototype\<close>.
\<close>

lemma mergeLoop_throws_iff:
  assumes "distinct (map fst es)"
  shows "isl (snd (mergeLoop num md options es (st, r)))
           \<longleftrightarrow> (\<exists>e\<in>set es. getProperty (registry st) (fst e) = Inherited)"
  using assms
proof (induction es arbitrary: st r)
  case Nil
  then show ?case by simp
next
  case (Cons e es)
  show ?case
  proof (cases "mergeStep num md options e (st, r)")
    case (Inl err)
    then show ?thesis using mergeStep_Inl[OF Inl] by simp
  next
    case (Inr acc)
    obtain st' r' where acc: "acc = (st', r')" by (cases acc)
    have d: "distinct (map fst es)" and nin: "fst e \<notin> fst ` set es" using Cons.prems(1) by auto
    have ne: "getProperty (registry st) (fst e) \<noteq> Inherited"
      using Inr mergeStep_Inherited[of st e num md options r] by auto
    have same: "\<And>x. x \<in> set es \<Longrightarrow>
        getProperty (registry st') (fst x) = getProperty (registry st) (fst x)"
    proof -
      fix x assume "x \<in> set es"
      then have "fst x \<noteq> fst e" using nin by (metis imageI)
      then show "getProperty (registry st') (fst x) = getProperty (registry st) (fst x)"
        using mergeStep_Inr(2)[OF Inr[unfolded acc]] by simp
    qed
    have "isl (snd (mergeLoop num md options (e # es) (st, r)))
            \<longleftrightarrow> isl (snd (mergeLoop num md options es (st', r')))"
      using Inr acc by simp
    also have "\<dots> \<longleftrightarrow> (\<exists>x\<in>set es. getProperty (registry st') (fst x) = Inherited)"
      using d by (rule Cons.IH)
    also have "\<dots> \<longleftrightarrow> (\<exists>x\<in>set es. getProperty (registry st) (fst x) = Inherited)"
      using same by auto
    finally show ?thesis using ne by simp
  qed
qed

lemma mergeRegistries_throws_iff:
  assumes "jsobject (prompts remote)"
  shows "isl (snd (mergeRegistries num st remote md options))
           \<longleftrightarrow> (\<exists>e\<in>set (prompts remote). getProperty (registry st) (fst e) = Inherited)"
  using assms unfolding mergeRegistries_def jsobject_def by (rule mergeLoop_throws_iff)

text \<open>
  Merging a document a second time leaves the registry, and the prototypes of the
  \<^verbatim>\<open>versions\<close> objects, as the first merge left them. When the first merge
  returned, the second returns and reports no new prompt; when the first merge threw,
  the second throws the same error.
\<close>

lemma mergeRegistries_twice:
  fixes num :: "string \<Rightarrow> 'n::{zero,linorder} option"
  assumes "jsobject (prompts remote)"
    and "mergeRegistries num st remote md options = (st1, o1)"
    and "mergeRegistries num st1 remote md options = (st2, o2)"
  shows "registry st2 = registry st1" and "versionsPrototypes st2 = versionsPrototypes st1"
    and "\<And>r1. o1 = Inr r1 \<Longrightarrow> \<exists>r2. o2 = Inr r2 \<and> newPrompts r2 = 0"
    and "\<And>err. o1 = Inl err \<Longrightarrow> o2 = Inl err"
proof -
  let ?r0 = "\<lparr>newPrompts = 0, updatedPrompts = 0, conflicts = [], warnings = []\<rparr>"
  have d: "distinct (map fst (prompts remote))" using assms(1) by (simp add: jsobject_def)
  have l1: "mergeLoop num md options (prompts remote) (st, ?r0) = (st1, o1)"
    using assms(2) by (simp add: mergeRegistries_def)
  have l2: "mergeLoop num md options (prompts remote) (st1, ?r0) = (st2, o2)"
    using assms(3) by (simp add: mergeRegistries_def)
  from mergeLoop_first[OF d l1] obtain pre post where pp: "prompts remote = pre @ post"
    and s: "\<forall>x\<in>set pre. settled num options st1 x"
    and o: "(case o1 of
               Inr r1 \<Rightarrow> post = []
             | Inl err \<Rightarrow> post \<noteq> [] \<and> getProperty (registry st1) (fst (hd post)) = Inherited
                   \<and> err = TypeError ''Cannot read properties of undefined (reading 'undefined')'')"
    by blast
  from mergeLoop_second[OF s, of md post ?r0] obtain st' r' where
    run: "mergeLoop num md options (pre @ post) (st1, ?r0) = mergeLoop num md options post (st', r')"
    and reg: "registry st' = registry st1" and pro: "versionsPrototypes st' = versionsPrototypes st1"
    and np: "newPrompts r' = 0"
    by auto
  have rest: "mergeLoop num md options post (st', r') = (st2, o2)"
    using l2 run pp by simp
  have both: "registry st2 = registry st1 \<and> versionsPrototypes st2 = versionsPrototypes st1
      \<and> (\<forall>r1. o1 = Inr r1 \<longrightarrow> (\<exists>r2. o2 = Inr r2 \<and> newPrompts r2 = 0))
      \<and> (\<forall>err. o1 = Inl err \<longrightarrow> o2 = Inl err)"
  proof (cases o1)
    case (Inr r1)
    then have "post = []" using o by simp
    then have "st2 = st'" "o2 = Inr r'" using rest by simp_all
    then show ?thesis using Inr reg pro np by simp
  next
    case (Inl err)
    then have ne: "post \<noteq> []"
      and inh: "getProperty (registry st1) (fst (hd post)) = Inherited"
      and err: "err = TypeError ''Cannot read properties of undefined (reading 'undefined')''"
      using o by simp_all
    obtain e post' where post: "post = e # post'" using ne by (cases post) auto
    have "getProperty (registry st') (fst e) = Inherited" using inh post reg by simp
    then have "mergeStep num md options e (st', r')
        = Inl (TypeError ''Cannot read properties of undefined (reading 'undefined')'')"
      by (rule mergeStep_Inherited)
    then have "st2 = st'" "o2 = Inl err" using rest post err by simp_all
    then show ?thesis using Inl reg pro by simp
  qed
  from both show "registry st2 = registry st1" by simp
  from both show "versionsPrototypes st2 = versionsPrototypes st1" by simp
  from both show "\<And>r1. o1 = Inr r1 \<Longrightarrow> \<exists>r2. o2 = Inr r2 \<and> newPrompts r2 = 0" by simp
  from both show "\<And>err. o1 = Inl err \<Longrightarrow> o2 = Inl err" by simp
qed

subsection \<open>What a merge that returns has done\<close>

lemma compareVersions_one_iff: "compareVersions num a b = 1 \<longleftrightarrow> 0 < compareVersions num a b"
  using compareVersions_range[of num a b] by auto

text \<open>What the inner loops leave in the versions object.\<close>

lemma own_addNewer:
  "map_of (fst (fst (addNewer num p ll lv ws rv))) v =
     (if \<not> hasVersion lv v \<and> compareVersions num v ll = 1 then map_of rv v else map_of (fst lv) v)"
proof (induction num p ll lv ws rv rule: addNewer.induct)
  case (1 num p ll lv ws)
  then show ?case by (auto simp: hasVersion_def split: option.splits)
next
  case (2 num p ll lv ws ver verData rest)
  show ?case
  proof (cases "\<not> hasVersion lv ver \<and> compareVersions num ver ll = 1")
    case True
    let ?lv' = "assignVersion ver verData lv"
    have a: "?lv' = (AList.update ver verData (fst lv), snd lv)"
      using True by (simp add: assignVersion_absent)
    have IH: "map_of (fst (fst (addNewer num p ll ?lv' (ws @ [newerWarning ver p]) rest))) v =
       (if \<not> hasVersion ?lv' v \<and> compareVersions num v ll = 1 then map_of rest v
        else map_of (fst ?lv') v)"
      using True by (intro "2.IH"(1)) simp
    show ?thesis
    proof (cases "v = ver")
      case same: True
      have "hasVersion ?lv' v" unfolding same by (rule hasVersion_assigned)
      then show ?thesis using True IH same a by (simp add: update_conv')
    next
      case other: False
      have "hasVersion ?lv' v \<longleftrightarrow> hasVersion lv v"
        using other unfolding a by (simp add: hasVersion_def update_conv' split: option.splits)
      then show ?thesis using True IH other a by (simp add: update_conv')
    qed
  next
    case False
    have IH: "map_of (fst (fst (addNewer num p ll lv ws rest))) v =
       (if \<not> hasVersion lv v \<and> compareVersions num v ll = 1 then map_of rest v
        else map_of (fst lv) v)"
      using False by (intro "2.IH"(2)) simp
    show ?thesis using False IH by auto
  qed
qed

lemma snd_addNewer:
  "distinct (map fst rv) \<Longrightarrow>
   snd (addNewer num p ll lv ws rv) =
     ws @ map (\<lambda>(v, d). newerWarning v p)
            (filter (\<lambda>(v, d). \<not> hasVersion lv v \<and> compareVersions num v ll = 1) rv)"
proof (induction num p ll lv ws rv rule: addNewer.induct)
  case (1 num p ll lv ws)
  then show ?case by simp
next
  case (2 num p ll lv ws ver verData rest)
  have nin: "ver \<notin> fst ` set rest" and d: "distinct (map fst rest)" using "2.prems" by simp_all
  show ?case
  proof (cases "\<not> hasVersion lv ver \<and> compareVersions num ver ll = 1")
    case True
    let ?lv' = "assignVersion ver verData lv"
    have a: "?lv' = (AList.update ver verData (fst lv), snd lv)"
      using True by (simp add: assignVersion_absent)
    have *: "filter (\<lambda>(v, d). \<not> hasVersion ?lv' v \<and> compareVersions num v ll = 1) rest
           = filter (\<lambda>(v, d). \<not> hasVersion lv v \<and> compareVersions num v ll = 1) rest"
    proof (rule filter_cong[OF refl])
      fix x assume x: "x \<in> set rest"
      obtain v d where vd: "x = (v, d)" by (cases x)
      have "v \<in> fst ` set rest" using x vd by (metis fst_conv imageI)
      then have "v \<noteq> ver" using nin by auto
      then have "hasVersion ?lv' v \<longleftrightarrow> hasVersion lv v"
        unfolding a by (simp add: hasVersion_def update_conv' split: option.splits)
      then show "(case x of (v, d) \<Rightarrow> \<not> hasVersion ?lv' v \<and> compareVersions num v ll = 1)
         = (case x of (v, d) \<Rightarrow> \<not> hasVersion lv v \<and> compareVersions num v ll = 1)"
        using vd by simp
    qed
    have "snd (addNewer num p ll ?lv' (ws @ [newerWarning ver p]) rest) =
        (ws @ [newerWarning ver p]) @ map (\<lambda>(v, d). newerWarning v p)
            (filter (\<lambda>(v, d). \<not> hasVersion ?lv' v \<and> compareVersions num v ll = 1) rest)"
      using True d by (intro "2.IH"(1)) simp_all
    then show ?thesis using True * by simp
  next
    case False
    have "snd (addNewer num p ll lv ws rest) =
        ws @ map (\<lambda>(v, d). newerWarning v p)
            (filter (\<lambda>(v, d). \<not> hasVersion lv v \<and> compareVersions num v ll = 1) rest)"
      using False d by (intro "2.IH"(2)) simp_all
    then show ?thesis using False by auto
  qed
qed

lemma copyAll_result:
  "distinct (map fst rv) \<Longrightarrow>
   map_of (fst (copyAll lv rv)) v =
     (if v = ''__proto__'' \<and> map_of (fst lv) v = None then None
      else case map_of rv v of Some d \<Rightarrow> Some d | None \<Rightarrow> map_of (fst lv) v)
   \<and> snd (copyAll lv rv) =
     (if map_of (fst lv) ''__proto__'' = None
      then (case map_of rv ''__proto__'' of Some d \<Rightarrow> Some d | None \<Rightarrow> snd lv)
      else snd lv)"
proof (induction rv arbitrary: lv)
  case Nil
  then show ?case by auto
next
  case (Cons e rest)
  obtain ver verData where e: "e = (ver, verData)" by (cases e)
  from Cons.prems e have d: "distinct (map fst rest)" and "ver \<notin> fst ` set rest" by auto
  then have none: "map_of rest ver = None" by (simp add: map_of_eq_None_iff)
  let ?lv' = "assignVersion ver verData lv"
  have IH: "map_of (fst (copyAll ?lv' rest)) v =
     (if v = ''__proto__'' \<and> map_of (fst ?lv') v = None then None
      else case map_of rest v of Some d \<Rightarrow> Some d | None \<Rightarrow> map_of (fst ?lv') v)
   \<and> snd (copyAll ?lv' rest) =
     (if map_of (fst ?lv') ''__proto__'' = None
      then (case map_of rest ''__proto__'' of Some d \<Rightarrow> Some d | None \<Rightarrow> snd ?lv')
      else snd ?lv')"
    using d by (rule Cons.IH)
  show ?case
  proof (cases "ver = ''__proto__'' \<and> map_of (fst lv) ver = None")
    case True
    from True have t1: "ver = ''__proto__''" and t2: "map_of (fst lv) ''__proto__'' = None"
      by auto
    have a: "assignVersion ver verData lv = (fst lv, Some verData)"
      unfolding t1 by (simp add: assignVersion_def t2)
    have a': "assignVersion ''__proto__'' verData lv = (fst lv, Some verData)"
      using a t1 by simp
    have n: "map_of rest ''__proto__'' = None" using none t1 by simp
    note IH' = IH[unfolded a fst_conv snd_conv]
    show ?thesis
    proof (cases "v = ''__proto__''")
      case True
      then show ?thesis using IH' t2 n by (simp add: e t1 a')
    next
      case False
      then show ?thesis using IH' t2 n by (simp add: e t1 a')
    qed
  next
    case False
    then have a: "assignVersion ver verData lv = (AList.update ver verData (fst lv), snd lv)"
      by (auto simp: assignVersion_def)
    note IH' = IH[unfolded a fst_conv snd_conv]
    show ?thesis
    proof (cases "v = ver")
      case True
      then show ?thesis using IH' False none
        by (auto simp: e a update_conv' split: option.splits)
    next
      case other: False
      then show ?thesis using IH' False none
        by (auto simp: e a update_conv' split: option.splits)
    qed
  qed
qed

lemma result_mergeExisting:
  assumes "distinct (map fst (versions re))"
  shows "snd (snd (mergeExisting num options p le proto re r)) =
     r\<lparr>updatedPrompts := updatedPrompts r +
          (if 0 < compareVersions num (latest re) (latest le) \<and> mergeStrategy options = PreferRemote
           then 1 else 0),
       warnings := warnings r @
          (if 0 < compareVersions num (latest re) (latest le) \<and> mergeStrategy options \<noteq> PreferRemote
           then map (\<lambda>(v, d). ''Added newer version '' @ v @ '' to local prompt '' @ p)
                  (copiedVersions num (versions le, proto) (latest le) (versions re))
           else [])\<rparr>"
proof -
  have flip: "compareVersions num (latest le) (latest re) < 0 \<longleftrightarrow>
              0 < compareVersions num (latest re) (latest le)"
    by (rule compareVersions_flip)
  have nflip: "0 < compareVersions num (latest le) (latest re) \<Longrightarrow>
              \<not> 0 < compareVersions num (latest re) (latest le)"
    using compareVersions_antisym[of num "latest le" "latest re"] by simp
  show ?thesis
    unfolding mergeExisting_def Let_def
    using snd_addNewer[OF assms, of num p "latest le" "(versions le, proto)" "warnings r"] nflip
    by (auto simp: flip split_beta copiedVersions_def compareVersions_one_iff newerWarning_def)
qed

lemma mergeStep_result:
  assumes "distinct (map fst (versions (snd e)))"
    and "mergeStep num md options e (st, r) = Inr (st', r')"
  shows "r' =
     r\<lparr>newPrompts := newPrompts r + (if getProperty (registry st) (fst e) = Absent then 1 else 0),
       updatedPrompts := updatedPrompts r +
          (if mergeStrategy options = PreferRemote \<and> remoteIsNewer num st e then 1 else 0),
       warnings := warnings r @
          (if mergeStrategy options = PreferRemote then [] else expectedWarnings num st e)\<rparr>"
proof (cases e)
  case (Pair p re)
  show ?thesis
  proof (cases "getProperty (registry st) p")
    case Absent
    then show ?thesis using Pair assms(2)
      by (auto simp: mergeStep_def remoteIsNewer_def expectedWarnings_def)
  next
    case Inherited
    then show ?thesis using Pair assms(2) by (simp add: mergeStep_def)
  next
    case (Own le)
    have d: "distinct (map fst (versions re))" using assms(1) Pair by simp
    have "r' = snd (snd (mergeExisting num options p le (versionsPrototypes st p) re r))"
      using Pair Own assms(2) by (auto simp: mergeStep_def split_beta)
    then show ?thesis using Pair Own
      by (simp add: result_mergeExisting[OF d] remoteIsNewer_def expectedWarnings_def)
  qed
qed

lemma mergeLoop_result:
  assumes "distinct (map fst es)"
    and "\<And>e. e \<in> set es \<Longrightarrow> distinct (map fst (versions (snd e)))"
    and "mergeLoop num md options es (st, r) = (st', Inr r')"
  shows "r' =
     r\<lparr>newPrompts := newPrompts r
          + length (filter (\<lambda>e. getProperty (registry st) (fst e) = Absent) es),
       updatedPrompts := updatedPrompts r +
          (if mergeStrategy options = PreferRemote
           then length (filter (remoteIsNewer num st) es) else 0),
       warnings := warnings r @
          (if mergeStrategy options = PreferRemote then []
           else concat (map (expectedWarnings num st) es))\<rparr>"
  using assms
proof (induction es arbitrary: st r)
  case Nil
  then show ?case by simp
next
  case (Cons e es)
  obtain st1 r1 where s1: "mergeStep num md options e (st, r) = Inr (st1, r1)"
    using Cons.prems(3) by (cases "mergeStep num md options e (st, r)") auto
  have loop: "mergeLoop num md options es (st1, r1) = (st', Inr r')"
    using Cons.prems(3) s1 by simp
  have r1: "r1 = r\<lparr>newPrompts := newPrompts r
          + (if getProperty (registry st) (fst e) = Absent then 1 else 0),
       updatedPrompts := updatedPrompts r +
          (if mergeStrategy options = PreferRemote \<and> remoteIsNewer num st e then 1 else 0),
       warnings := warnings r @
          (if mergeStrategy options = PreferRemote then [] else expectedWarnings num st e)\<rparr>"
    using mergeStep_result[OF _ s1] Cons.prems(2)[of e] by simp
  have same: "\<And>x. x \<in> set es \<Longrightarrow>
      getProperty (registry st1) (fst x) = getProperty (registry st) (fst x)
      \<and> versionsPrototypes st1 (fst x) = versionsPrototypes st (fst x)"
  proof -
    fix x assume "x \<in> set es"
    then have "fst x \<in> fst ` set es" by (rule imageI)
    moreover have "fst e \<notin> fst ` set es" using Cons.prems(1) by simp
    ultimately have "fst x \<noteq> fst e" by metis
    then show "getProperty (registry st1) (fst x) = getProperty (registry st) (fst x)
      \<and> versionsPrototypes st1 (fst x) = versionsPrototypes st (fst x)"
      using mergeStep_Inr(2,3)[OF s1] by simp
  qed
  have f1: "filter (\<lambda>e. getProperty (registry st1) (fst e) = Absent) es
          = filter (\<lambda>e. getProperty (registry st) (fst e) = Absent) es"
    by (rule filter_cong[OF refl]) (simp add: same)
  have f2: "filter (remoteIsNewer num st1) es = filter (remoteIsNewer num st) es"
    by (rule filter_cong[OF refl]) (simp add: remoteIsNewer_def same)
  have f3: "map (expectedWarnings num st1) es = map (expectedWarnings num st) es"
    by (rule map_cong[OF refl]) (simp add: expectedWarnings_def same split: property.splits)
  have IH: "r' =
     r1\<lparr>newPrompts := newPrompts r1
          + length (filter (\<lambda>e. getProperty (registry st1) (fst e) = Absent) es),
       updatedPrompts := updatedPrompts r1 +
          (if mergeStrategy options = PreferRemote
           then length (filter (remoteIsNewer num st1) es) else 0),
       warnings := warnings r1 @
          (if mergeStrategy options = PreferRemote then []
           else concat (map (expectedWarnings num st1) es))\<rparr>"
    using Cons.prems(1,2) loop by (intro Cons.IH) simp_all
  show ?case
    unfolding IH f1 f2 f3 r1 by (cases "mergeStrategy options = PreferRemote") simp_all
qed

lemma mergeStep_Own:
  assumes "getProperty (registry st) p = Own le"
    and "mergeStep num md options (p, re) (st, r) = Inr (st', r')"
  shows "getProperty (registry st') p
           = Own (fst (mergedObject num options (le, versionsPrototypes st p) re))"
    and "versionsPrototypes st' p = snd (mergedObject num options (le, versionsPrototypes st p) re)"
proof -
  obtain le' proto' where m:
    "mergedObject num options (le, versionsPrototypes st p) re = (le', proto')"
    by (cases "mergedObject num options (le, versionsPrototypes st p) re")
  have "(case mergeExisting num options p le (versionsPrototypes st p) re r of
           (le', proto', r') \<Rightarrow> (le', proto')) = (le', proto')"
    unfolding mergeExisting_object by (rule m)
  then have reg: "registry st' = AList.update p le' (registry st)"
    and pro: "versionsPrototypes st' = (versionsPrototypes st)(p := proto')"
    using assms by (auto simp: mergeStep_def split_beta)
  show "getProperty (registry st') p
           = Own (fst (mergedObject num options (le, versionsPrototypes st p) re))"
    by (simp add: reg m getProperty_update)
  show "versionsPrototypes st' p = snd (mergedObject num options (le, versionsPrototypes st p) re)"
    by (simp add: pro m)
qed

lemma mergeLoop_lookup:
  assumes "distinct (map fst es)"
    and "mergeLoop num md options es (st, r) = (st', Inr r')"
    and "(q, re) \<in> set es" and "getProperty (registry st) q = Own le"
  shows "getProperty (registry st') q
           = Own (fst (mergedObject num options (le, versionsPrototypes st q) re))
       \<and> versionsPrototypes st' q = snd (mergedObject num options (le, versionsPrototypes st q) re)"
  using assms
proof (induction es arbitrary: st r)
  case Nil
  then show ?case by simp
next
  case (Cons e es)
  obtain st1 r1 where s1: "mergeStep num md options e (st, r) = Inr (st1, r1)"
    using Cons.prems(2) by (cases "mergeStep num md options e (st, r)") auto
  have loop: "mergeLoop num md options es (st1, r1) = (st', Inr r')"
    using Cons.prems(2) s1 by simp
  have d: "distinct (map fst es)" and nin: "fst e \<notin> fst ` set es" using Cons.prems(1) by auto
  show ?case
  proof (cases "e = (q, re)")
    case True
    have q: "q \<notin> fst ` set es" using nin True by simp
    have "getProperty (registry st') q = getProperty (registry st1) q
        \<and> versionsPrototypes st' q = versionsPrototypes st1 q"
      using q loop by (rule mergeLoop_other)
    then show ?thesis
      using mergeStep_Own[OF Cons.prems(4) s1[unfolded True]] by simp
  next
    case False
    then have mem: "(q, re) \<in> set es" using Cons.prems(3) by simp
    then have "q \<in> fst ` set es" by (metis fst_conv imageI)
    then have ne: "q \<noteq> fst e" using nin by metis
    have g: "getProperty (registry st1) q = Own le"
      and p: "versionsPrototypes st1 q = versionsPrototypes st q"
      using mergeStep_Inr(2,3)[OF s1, of q] ne Cons.prems(4) by simp_all
    show ?thesis
      using Cons.IH[OF d loop mem g] p by simp
  qed
qed

text \<open>
  For a version key that is no name of \<^verbatim>\<open>Object.prototype\<close>, on a versions object
  whose prototype has not been replaced, the test \<^verbatim>\<open>localEntry.versions[version]\<close>
  is presence of the key.
\<close>

lemma hasVersion_plain:
  "v \<notin> set objectPrototypeNames \<Longrightarrow> hasVersion (own, None) v \<longleftrightarrow> map_of own v \<noteq> None"
  by (auto simp: hasVersion_def split: option.splits)

text \<open>
  A merge that returns, for an id with an own local entry whose \<open>latest\<close> is older
  than the remote one. Under \<open>prefer-remote\<close> the entry gets the remote \<open>latest\<close> and
  every remote version, the other local versions stay, and the id is counted in
  \<^verbatim>\<open>updatedPrompts\<close>; a remote version under the key \<^verbatim>\<open>__proto__\<close>, when the local
  entry has no own version of that name, becomes the prototype of the versions object
  instead of a version. Under the other strategies the entry keeps its \<open>latest\<close>
  and gets exactly the remote versions for which \<^verbatim>\<open>localEntry.versions[version]\<close>
  is falsy and which are newer than the local \<open>latest\<close>, with one warning for each in
  the order of the remote document.
\<close>

lemma mergeRegistries_newer_entry:
  fixes num :: "string \<Rightarrow> 'n::{zero,linorder} option"
  assumes "jsobject (prompts remote)"
    and "\<forall>e\<in>set (prompts remote). jsobject (versions (snd e))"
    and "mergeRegistries num st remote md options = (st', Inr result)"
    and "map_of (registry st) promptId = Some localEntry"
    and "map_of (prompts remote) promptId = Some remoteEntry"
    and "0 < compareVersions num (latest remoteEntry) (latest localEntry)"
  shows "\<exists>e'. map_of (registry st') promptId = Some e' \<and>
     (if mergeStrategy options = PreferRemote
      then latest e' = latest remoteEntry
         \<and> (\<forall>v d. map_of (versions remoteEntry) v = Some d \<longrightarrow>
               (if v = ''__proto__'' \<and> map_of (versions localEntry) v = None
                then versionsPrototypes st' promptId = Some d \<and> map_of (versions e') v = None
                else map_of (versions e') v = Some d))
         \<and> (\<forall>v. map_of (versions remoteEntry) v = None \<longrightarrow>
                map_of (versions e') v = map_of (versions localEntry) v)
         \<and> updatedPrompts result = length (filter (remoteIsNewer num st) (prompts remote))
         \<and> 0 < updatedPrompts result
         \<and> warnings result = []
      else latest e' = latest localEntry
         \<and> (\<forall>v. map_of (versions e') v =
                (if v \<in> fst ` set (copiedVersions num
                                      (versions localEntry, versionsPrototypes st promptId)
                                      (latest localEntry) (versions remoteEntry))
                 then map_of (versions remoteEntry) v
                 else map_of (versions localEntry) v))
         \<and> versionsPrototypes st' promptId = versionsPrototypes st promptId
         \<and> warnings result = concat (map (expectedWarnings num st) (prompts remote))
         \<and> updatedPrompts result = 0)"
proof -
  let ?r0 = "\<lparr>newPrompts = 0, updatedPrompts = 0, conflicts = [], warnings = []\<rparr>"
  let ?proto = "versionsPrototypes st promptId"
  let ?m = "mergedObject num options (localEntry, ?proto) remoteEntry"
  have d: "distinct (map fst (prompts remote))" using assms(1) by (simp add: jsobject_def)
  have dv: "\<And>e. e \<in> set (prompts remote) \<Longrightarrow> distinct (map fst (versions (snd e)))"
    using assms(2) by (simp add: jsobject_def)
  have mem: "(promptId, remoteEntry) \<in> set (prompts remote)"
    using assms(5) by (rule map_of_SomeD)
  have dre: "distinct (map fst (versions remoteEntry))" using dv[OF mem] by simp
  have own: "getProperty (registry st) promptId = Own localEntry"
    using assms(4) by (simp add: getProperty_Own)
  have loop: "mergeLoop num md options (prompts remote) (st, ?r0) = (st', Inr result)"
    using assms(3) by (simp add: mergeRegistries_def)
  have look: "getProperty (registry st') promptId = Own (fst ?m)"
    and pro: "versionsPrototypes st' promptId = snd ?m"
    using mergeLoop_lookup[OF d loop mem own] by simp_all
  have look': "map_of (registry st') promptId = Some (fst ?m)"
    using look by (simp add: getProperty_Own)
  have lt: "compareVersions num (latest localEntry) (latest remoteEntry) < 0"
    using assms(6) by (simp add: compareVersions_flip)
  have result: "result =
     ?r0\<lparr>newPrompts := newPrompts ?r0
          + length (filter (\<lambda>e. getProperty (registry st) (fst e) = Absent) (prompts remote)),
       updatedPrompts := updatedPrompts ?r0 +
          (if mergeStrategy options = PreferRemote
           then length (filter (remoteIsNewer num st) (prompts remote)) else 0),
       warnings := warnings ?r0 @
          (if mergeStrategy options = PreferRemote then []
           else concat (map (expectedWarnings num st) (prompts remote)))\<rparr>"
    using d dv loop by (rule mergeLoop_result)
  have newer: "remoteIsNewer num st (promptId, remoteEntry)"
    using own assms(6) by (simp add: remoteIsNewer_def)
  show ?thesis
  proof (cases "mergeStrategy options = PreferRemote")
    case True
    obtain vs proto' where c: "copyAll (versions localEntry, ?proto) (versions remoteEntry) = (vs, proto')"
      by (cases "copyAll (versions localEntry, ?proto) (versions remoteEntry)")
    have m: "?m = (localEntry\<lparr>latest := latest remoteEntry, versions := vs\<rparr>, proto')"
      using lt True c by (simp add: mergedObject_def mergeExisting_def Let_def)
    note cr = copyAll_result[OF dre, of "(versions localEntry, ?proto)", unfolded c fst_conv snd_conv]
    have vs: "\<And>v. map_of vs v =
        (if v = ''__proto__'' \<and> map_of (versions localEntry) v = None then None
         else case map_of (versions remoteEntry) v of
                Some d \<Rightarrow> Some d | None \<Rightarrow> map_of (versions localEntry) v)"
      using cr by blast
    have p': "proto' =
        (if map_of (versions localEntry) ''__proto__'' = None
         then (case map_of (versions remoteEntry) ''__proto__'' of
                 Some d \<Rightarrow> Some d | None \<Rightarrow> ?proto)
         else ?proto)"
      using cr by blast
    have "filter (remoteIsNewer num st) (prompts remote) \<noteq> []"
      using mem newer by (auto simp: filter_empty_conv)
    then have pos: "0 < length (filter (remoteIsNewer num st) (prompts remote))"
      by simp
    have a: "\<forall>v d. map_of (versions remoteEntry) v = Some d \<longrightarrow>
               (if v = ''__proto__'' \<and> map_of (versions localEntry) v = None
                then versionsPrototypes st' promptId = Some d \<and> map_of vs v = None
                else map_of vs v = Some d)"
      using pro m p' by (auto simp: vs)
    have b: "\<forall>v. map_of (versions remoteEntry) v = None \<longrightarrow>
                map_of vs v = map_of (versions localEntry) v"
      by (auto simp: vs)
    show ?thesis
      using look' True pos a b
      by (intro exI[of _ "fst ?m"]) (simp add: m result)
  next
    case False
    obtain vs proto' ws where a:
      "addNewer num [] (latest localEntry) (versions localEntry, ?proto) [] (versions remoteEntry)
         = ((vs, proto'), ws)"
      by (cases "addNewer num [] (latest localEntry) (versions localEntry, ?proto) []
                   (versions remoteEntry)") auto
    have m: "?m = (localEntry\<lparr>versions := vs\<rparr>, proto')"
      using lt False a by (simp add: mergedObject_def mergeExisting_def Let_def emptyResult_def)
    have p': "proto' = ?proto"
      using snd_fst_addNewer[of num "[]" "latest localEntry" "(versions localEntry, ?proto)" "[]"
          "versions remoteEntry"] a by simp
    have vs: "\<And>v. map_of vs v =
                (if v \<in> fst ` set (copiedVersions num (versions localEntry, ?proto)
                                      (latest localEntry) (versions remoteEntry))
                 then map_of (versions remoteEntry) v
                 else map_of (versions localEntry) v)"
    proof -
      fix v
      have mem_iff: "v \<in> fst ` set (copiedVersions num (versions localEntry, ?proto)
                                      (latest localEntry) (versions remoteEntry)) \<longleftrightarrow>
            v \<in> fst ` set (versions remoteEntry) \<and> \<not> hasVersion (versions localEntry, ?proto) v
              \<and> compareVersions num v (latest localEntry) = 1"
        by (force simp: copiedVersions_def compareVersions_one_iff)
      have in_iff: "v \<in> fst ` set (copiedVersions num (versions localEntry, ?proto)
                                      (latest localEntry) (versions remoteEntry)) \<longleftrightarrow>
            map_of (versions remoteEntry) v \<noteq> None \<and> \<not> hasVersion (versions localEntry, ?proto) v
              \<and> compareVersions num v (latest localEntry) = 1"
        unfolding mem_iff by (simp add: map_of_eq_None_iff)
      have nh: "\<not> hasVersion (versions localEntry, ?proto) v \<Longrightarrow> map_of (versions localEntry) v = None"
        by (cases "map_of (versions localEntry) v") (simp_all add: hasVersion_def)
      have "map_of vs v =
          (if \<not> hasVersion (versions localEntry, ?proto) v
               \<and> compareVersions num v (latest localEntry) = 1
           then map_of (versions remoteEntry) v else map_of (versions localEntry) v)"
        using own_addNewer[of num "[]" "latest localEntry" "(versions localEntry, ?proto)" "[]"
            "versions remoteEntry" v] a by simp
      then show "map_of vs v =
                (if v \<in> fst ` set (copiedVersions num (versions localEntry, ?proto)
                                      (latest localEntry) (versions remoteEntry))
                 then map_of (versions remoteEntry) v
                 else map_of (versions localEntry) v)"
        unfolding in_iff using nh by auto
    qed
    show ?thesis
      using look' False vs pro p'
      by (intro exI[of _ "fst ?m"]) (simp add: m result)
  qed
qed

subsection \<open>Concrete runs\<close>

lemma example_compare:
  "compareVersions Number_dec ''2.0'' ''1.0'' = 1"
  "compareVersions Number_dec ''1.0.0'' ''2.0.0'' = - 1"
  "compareVersions Number_dec ''0.9.0'' ''1.0.0'' = - 1"
  "compareVersions Number_dec ''2.0.0'' ''1.0.0'' = 1"
  "compareVersions Number_dec ''1.0.0'' ''1.0.0'' = 0"
  "compareVersions Number_dec ''2.0.0'' ''2.0.0'' = 0"
  by code_simp+

lemma example_plain:
  "''p'' \<notin> set objectPrototypeNames" "''q'' \<notin> set objectPrototypeNames"
  "''0.9.0'' \<notin> set objectPrototypeNames" "''1.0.0'' \<notin> set objectPrototypeNames"
  "''2.0.0'' \<notin> set objectPrototypeNames" "''constructor'' \<in> set objectPrototypeNames"
  "''toString'' \<in> set objectPrototypeNames"
  by (simp_all add: objectPrototypeNames_def)

lemmas example_defs =
  mergeRegistries_def mergeStep_def mergeExisting_def updateSchemaVersion_def
  getProperty_def hasVersion_def assignVersion_def
  exampleStore_def exampleRemote_def exampleLocalEntry_def exampleRemoteEntry_def
  exampleOptions_def Let_def example_compare example_plain

text \<open>
  Claim C1. The prompt \<open>p\<close> is present in the local registry and in the remote
  document, and the remote \<open>latest\<close>, \<open>2.0.0\<close>, compares strictly greater than the
  local one, \<open>1.0.0\<close>. When the remote document holds, before \<open>p\<close>, a prompt whose id
  is \<open>constructor\<close>, which the local registry does not have, the loop reads
  \<^verbatim>\<open>registry['constructor']\<close>, gets the function inherited from
  \<^verbatim>\<open>Object.prototype\<close>, takes the id for one that is present locally, and throws a
  \<^verbatim>\<open>TypeError\<close> at \<^verbatim>\<open>localEntry.versions[localEntry.latest]\<close>. The merge ends
  there, under every strategy: the entry of \<open>p\<close> keeps its \<open>latest\<close> and its versions,
  and no result record, with its \<^verbatim>\<open>updatedPrompts\<close> and warnings, is returned.
  Without that prompt the same merge does what the claim says: under
  \<open>prefer-remote\<close> the entry of \<open>p\<close> gets the remote \<open>latest\<close> and every remote
  version and is counted as updated; under \<open>prefer-local\<close> it keeps its \<open>latest\<close>
  and gets the one remote version that is absent locally and newer, \<open>2.0.0\<close>, with
  one warning that names the version and the id. In general the merge throws
  whenever the remote document holds such an id (\<open>mergeRegistries_throws_iff\<close>), and
  \<open>mergeRegistries_newer_entry\<close> says what a merge that returns has done.
\<close>

theorem mergeRegistries_inherited_id_aborts:
  "getProperty (registry exampleStore) ''p'' = Own exampleLocalEntry
   \<and> map_of (prompts constructorRemote) ''p'' = Some exampleRemoteEntry
   \<and> compareVersions Number_dec (latest exampleRemoteEntry) (latest exampleLocalEntry) = 1
   \<and> map_of (registry exampleStore) ''constructor'' = None
   \<and> getProperty (registry exampleStore) ''constructor'' = Inherited
   \<and> mergeRegistries Number_dec exampleStore constructorRemote (Some ''2.0'')
         (exampleOptions PreferRemote)
       = (exampleStore,
          Inl (TypeError ''Cannot read properties of undefined (reading 'undefined')''))
   \<and> mergeRegistries Number_dec exampleStore constructorRemote (Some ''2.0'')
         (exampleOptions PreferLocal)
       = (exampleStore,
          Inl (TypeError ''Cannot read properties of undefined (reading 'undefined')''))
   \<and> mergeRegistries Number_dec exampleStore constructorRemote (Some ''2.0'')
         (exampleOptions Interactive)
       = (exampleStore,
          Inl (TypeError ''Cannot read properties of undefined (reading 'undefined')''))
   \<and> map_of (registry exampleStore) ''p''
       = Some \<lparr>latest = ''1.0.0'', versions = [(''1.0.0'', exampleVersion ''1.0.0'')]\<rparr>
   \<and> registry (fst (mergeRegistries Number_dec exampleStore exampleRemote (Some ''2.0'')
                       (exampleOptions PreferRemote)))
       = [(''p'', \<lparr>latest = ''2.0.0'',
                    versions = [(''1.0.0'', exampleVersion ''1.0.0''),
                                (''0.9.0'', exampleVersion ''0.9.0''),
                                (''2.0.0'', exampleVersion ''2.0.0'')]\<rparr>),
          (''q'', \<lparr>latest = ''1.0.0'', versions = [(''1.0.0'', exampleVersion ''1.0.0'')]\<rparr>)]
   \<and> snd (mergeRegistries Number_dec exampleStore exampleRemote (Some ''2.0'')
              (exampleOptions PreferRemote))
       = Inr \<lparr>newPrompts = 1, updatedPrompts = 1, conflicts = [], warnings = []\<rparr>
   \<and> registry (fst (mergeRegistries Number_dec exampleStore exampleRemote (Some ''2.0'')
                       (exampleOptions PreferLocal)))
       = [(''p'', \<lparr>latest = ''1.0.0'',
                    versions = [(''1.0.0'', exampleVersion ''1.0.0''),
                                (''2.0.0'', exampleVersion ''2.0.0'')]\<rparr>),
          (''q'', \<lparr>latest = ''1.0.0'', versions = [(''1.0.0'', exampleVersion ''1.0.0'')]\<rparr>)]
   \<and> snd (mergeRegistries Number_dec exampleStore exampleRemote (Some ''2.0'')
              (exampleOptions PreferLocal))
       = Inr \<lparr>newPrompts = 1, updatedPrompts = 0, conflicts = [],
               warnings = [''Added newer version 2.0.0 to local prompt p'']\<rparr>"
  by (simp add: example_defs constructorRemote_def newerWarning_def)

text \<open>
  Claim C2. The remote document holds the prompt \<open>p\<close> and, after it, a prompt whose
  id is \<open>toString\<close>. The first merge brings \<open>p\<close> up to date and then throws the
  \<^verbatim>\<open>TypeError\<close> of above at \<^verbatim>\<open>registry['toString']\<close>. Merging the same document a
  second time, with the same strategy, throws again: the local registry stays as the
  first merge left it, but no result record is returned, so no \<^verbatim>\<open>newPrompts\<close> of
  \<open>0\<close>. Without the prompt \<open>toString\<close> the second merge returns a result with
  \<^verbatim>\<open>newPrompts\<close> \<open>0\<close> and leaves the local registry as the first merge left it.
  Both are instances of \<open>mergeRegistries_twice\<close>.
\<close>

theorem mergeRegistries_second_merge_throws:
  "getProperty (registry exampleStore) ''toString'' = Inherited
   \<and> snd (mergeRegistries Number_dec exampleStore toStringRemote (Some ''2.0'')
              (exampleOptions PreferRemote))
       = Inl (TypeError ''Cannot read properties of undefined (reading 'undefined')'')
   \<and> registry (fst (mergeRegistries Number_dec exampleStore toStringRemote (Some ''2.0'')
                       (exampleOptions PreferRemote)))
       = [(''p'', \<lparr>latest = ''2.0.0'',
                    versions = [(''1.0.0'', exampleVersion ''1.0.0''),
                                (''0.9.0'', exampleVersion ''0.9.0''),
                                (''2.0.0'', exampleVersion ''2.0.0'')]\<rparr>)]
   \<and> snd (mergeRegistries Number_dec
              (fst (mergeRegistries Number_dec exampleStore toStringRemote (Some ''2.0'')
                     (exampleOptions PreferRemote)))
              toStringRemote (Some ''2.0'') (exampleOptions PreferRemote))
       = Inl (TypeError ''Cannot read properties of undefined (reading 'undefined')'')
   \<and> registry (fst (mergeRegistries Number_dec
              (fst (mergeRegistries Number_dec exampleStore toStringRemote (Some ''2.0'')
                     (exampleOptions PreferRemote)))
              toStringRemote (Some ''2.0'') (exampleOptions PreferRemote)))
       = registry (fst (mergeRegistries Number_dec exampleStore toStringRemote (Some ''2.0'')
                          (exampleOptions PreferRemote)))
   \<and> snd (mergeRegistries Number_dec exampleStore exampleRemote (Some ''2.0'')
              (exampleOptions PreferRemote))
       = Inr \<lparr>newPrompts = 1, updatedPrompts = 1, conflicts = [], warnings = []\<rparr>
   \<and> snd (mergeRegistries Number_dec
              (fst (mergeRegistries Number_dec exampleStore exampleRemote (Some ''2.0'')
                     (exampleOptions PreferRemote)))
              exampleRemote (Some ''2.0'') (exampleOptions PreferRemote))
       = Inr \<lparr>newPrompts = 0, updatedPrompts = 0, conflicts = [], warnings = []\<rparr>
   \<and> registry (fst (mergeRegistries Number_dec
              (fst (mergeRegistries Number_dec exampleStore exampleRemote (Some ''2.0'')
                     (exampleOptions PreferRemote)))
              exampleRemote (Some ''2.0'') (exampleOptions PreferRemote)))
       = registry (fst (mergeRegistries Number_dec exampleStore exampleRemote (Some ''2.0'')
                          (exampleOptions PreferRemote)))"
  by (simp add: example_defs toStringRemote_def)

text \<open>
  Claim C4. The block that advances the schema version stands inside the loop body,
  after the \<^verbatim>\<open>continue\<close> of the new-prompt case. With a local schema version \<open>1.0\<close>
  and a remote schema version \<open>2.0\<close>, which is strictly newer, a remote document
  without prompt entries leaves the local schema version at \<open>1.0\<close>, and so does a
  remote document whose only entry is new to the local registry; a remote document
  with an entry already known locally advances it to \<open>2.0\<close>, and so does a second
  merge of the document whose entry was new the first time.
\<close>

theorem mergeRegistries_schema_inside_loop:
  "compareVersions Number_dec ''2.0'' (schemaVersion (registryMetadata exampleStore)) = 1
   \<and> schemaVersion (registryMetadata (fst (mergeRegistries Number_dec exampleStore
        \<lparr>prompts = [], remoteSchemaVersion = Some ''2.0''\<rparr> (Some ''2.0'')
        (exampleOptions PreferLocal)))) = ''1.0''
   \<and> schemaVersion (registryMetadata (fst (mergeRegistries Number_dec exampleStore
        \<lparr>prompts = [(''q'', exampleRemoteEntry)], remoteSchemaVersion = Some ''2.0''\<rparr> (Some ''2.0'')
        (exampleOptions PreferLocal)))) = ''1.0''
   \<and> schemaVersion (registryMetadata (fst (mergeRegistries Number_dec exampleStore
        \<lparr>prompts = [(''p'', exampleLocalEntry)], remoteSchemaVersion = Some ''2.0''\<rparr> (Some ''2.0'')
        (exampleOptions PreferLocal)))) = ''2.0''
   \<and> schemaVersion (registryMetadata (fst (mergeRegistries Number_dec
        (fst (mergeRegistries Number_dec exampleStore
               \<lparr>prompts = [(''q'', exampleRemoteEntry)], remoteSchemaVersion = Some ''2.0''\<rparr>
               (Some ''2.0'') (exampleOptions PreferLocal)))
        \<lparr>prompts = [(''q'', exampleRemoteEntry)], remoteSchemaVersion = Some ''2.0''\<rparr> (Some ''2.0'')
        (exampleOptions PreferLocal)))) = ''2.0''"
  by (simp add: example_defs)


section \<open>The network layer\<close>

lemma finalError_SyncError [simp]: "finalError (Some (SyncError code msg)) = SyncError code msg"
  by (simp add: finalError_def)







lemma fetchRemoteRegistry_untrusted:
  assumes "\<not> isTrustedDomain cfg parseURL u"
  shows "calls (fetchRemoteRegistry cfg parseURL jl net u) = 0"
    and "outcome (fetchRemoteRegistry cfg parseURL jl net u) =
      (case parseURL u of
         None \<Rightarrow> Inl (TypeError ''Invalid URL'')
       | Some parsed \<Rightarrow> Inl (SyncError CERTIFICATE_ERROR (''Untrusted domain: '' @ hostname parsed)))"
  using assms by (simp_all add: fetchRemoteRegistry_def split: option.splits)


lemma example_trusted:
  "isTrustedDomain DEFAULT_CONFIG exampleParseURL ''https://github.com/registry.json''"
  by (simp add: isTrustedDomain_def exampleParseURL_def DEFAULT_CONFIG_def)


lemma example_retry_attempts: "retryAttempts (policies DEFAULT_CONFIG) = 3"
  by (simp add: DEFAULT_CONFIG_def)


text \<open>
  Claim C5. The claim holds for a url that parses and is rejected for its scheme or
  its host: the run fails with \<open>CERTIFICATE_ERROR\<close> and calls \<^verbatim>\<open>fetch\<close> zero times
  (the two last conjuncts, and \<open>fetchRemoteRegistry_untrusted\<close> in general). For a
  url that does not parse, such as \<open>not a url\<close>, the run also makes no call, but what
  it throws is the parser's \<^verbatim>\<open>TypeError\<close>, raised while the message of the
  \<open>CERTIFICATE_ERROR\<close> is being built.
\<close>

theorem fetchRemoteRegistry_unparsable_url:
  "exampleParseURL ''not a url'' = None
   \<and> \<not> isTrustedDomain DEFAULT_CONFIG exampleParseURL ''not a url''
   \<and> fetchRemoteRegistry DEFAULT_CONFIG exampleParseURL exampleJsonLength exampleNet ''not a url''
       = \<lparr>outcome = Inl (TypeError ''Invalid URL''), calls = 0, waits = []\<rparr>
   \<and> fetchRemoteRegistry DEFAULT_CONFIG exampleParseURL exampleJsonLength exampleNet
         ''http://github.com/registry.json''
       = \<lparr>outcome = Inl (SyncError CERTIFICATE_ERROR ''Untrusted domain: github.com''),
          calls = 0, waits = []\<rparr>
   \<and> fetchRemoteRegistry DEFAULT_CONFIG exampleParseURL exampleJsonLength exampleNet
         ''https://evil.example/registry.json''
       = \<lparr>outcome = Inl (SyncError CERTIFICATE_ERROR ''Untrusted domain: evil.example''),
          calls = 0, waits = []\<rparr>"
  by (simp add: fetchRemoteRegistry_def isTrustedDomain_def exampleParseURL_def
        DEFAULT_CONFIG_def suffix_to_prefix)






section \<open>Retrieval\<close>

lemma example_replace:
  "replaceAllLiteral ''{{name}}'' ''X'' [] ''Hello {{name}}'' = ''Hello X''"
  "replaceAllLiteral ''{{name}}'' ''$&'' [] ''Hello {{name}}'' = ''Hello {{name}}''"
  "replaceAllLiteral ''{{name}}'' ''US$$'' [] ''Hello {{name}}'' = ''Hello US$''"
  by code_simp+

lemma example_unsubstituted:
  "unsubstituted ''Hello X'' = []"
  "unsubstituted ''Hello {{name}}'' = [''name'']"
  "unsubstituted ''Hello US$'' = []"
  by code_simp+

lemma example_literalKey: "literalKey ''name''"
  by code_simp

lemma example_splitId: "splitId ''p'' = (''p'', [])"
  by code_simp

lemma example_category: "getModelCategory ''gpt-4'' = ''gpt''"
  by code_simp

lemmas example_get_defs =
  get_def getLocal_def replaceVariable_def example_replace example_unsubstituted
  example_literalKey example_splitId exampleStore_def exampleLocalEntry_def exampleVersion_def
  noOptions_def Let_def

lemma get_model_irrelevant:
  "get rx synced reg ident variables (options\<lparr>model := m\<rparr>) = get rx synced reg ident variables options"
  by (simp add: get_def)

text \<open>
  Claim C7. On the template \<open>Hello {{name}}\<close>, \<open>get\<close> with \<open>name\<close> bound to \<open>X\<close>
  returns \<open>Hello X\<close>, and with no variable it fails naming \<open>name\<close>, as the claim
  says. But the value is handed to \<^verbatim>\<open>replace\<close> as a replacement template: with
  \<open>name\<close> bound to \<open>$&\<close> every placeholder is replaced by itself and \<open>get\<close> fails
  with the missing variable \<open>name\<close> although the key is supplied, and with \<open>name\<close>
  bound to \<open>US$$\<close> the output holds \<open>US$\<close>, not the value.
\<close>

theorem get_replacement_patterns:
  "get rx synced (registry exampleStore) ''p'' [(''name'', Str ''X'')] noOptions
     = Inr \<lparr>dataId = ''p@1.0.0'', dataPrompt = ''Hello X'', dataDescription = ''greeting'',
            dataCategory = ''general'', dataTags = [''demo''], dataVersion = ''1.0.0''\<rparr>
   \<and> get rx synced (registry exampleStore) ''p'' [] noOptions
     = Inl (Error ''Missing variables: name'')
   \<and> get rx synced (registry exampleStore) ''p'' [(''name'', Str ''$&'')] noOptions
     = Inl (Error ''Missing variables: name'')
   \<and> get rx synced (registry exampleStore) ''p'' [(''name'', Str ''US$$'')] noOptions
     = Inr \<lparr>dataId = ''p@1.0.0'', dataPrompt = ''Hello US$'', dataDescription = ''greeting'',
            dataCategory = ''general'', dataTags = [''demo''], dataVersion = ''1.0.0''\<rparr>"
  by (simp add: example_get_defs)

text \<open>
  Claim C8. \<open>get\<close> reads neither the \<^verbatim>\<open>model\<close> option nor the variants of the
  version: for a version whose variant for the category of \<open>gpt-4\<close> is
  \<open>Dear {{name}}\<close>, which is what \<open>getPromptVariant\<close> selects, \<open>get\<close> with model
  \<open>gpt-4\<close> interpolates the base template \<open>Hello {{name}}\<close>.
\<close>

theorem get_ignores_model:
  "variants variantVersion = Some [(''gpt'', ''Dear {{name}}'')]
   \<and> getPromptVariant variantVersion ''gpt-4'' = ''Dear {{name}}''
   \<and> get rx synced variantRegistry ''p'' [(''name'', Str ''X'')] (noOptions\<lparr>model := Some ''gpt-4''\<rparr>)
     = Inr \<lparr>dataId = ''p@1.0.0'', dataPrompt = ''Hello X'', dataDescription = ''greeting'',
            dataCategory = ''general'', dataTags = [''demo''], dataVersion = ''1.0.0''\<rparr>"
  by (simp add: get_def getLocal_def replaceVariable_def example_replace example_unsubstituted
        example_literalKey example_splitId variantRegistry_def variantVersion_def noOptions_def
        Let_def getPromptVariant_def truthyVariant_def example_category)

section \<open>Search\<close>










section \<open>Sync\<close>

lemma example_maxPayloadSize: "maxPayloadSize (security DEFAULT_CONFIG) = 104857600"
  by (simp add: DEFAULT_CONFIG_def)

lemma example_fetch:
  "outcome (fetchRemoteRegistry DEFAULT_CONFIG exampleParseURL examplePayloadLength
             (network exampleWorld) ''https://github.com/registry.json'')
     = Inr (Document exampleRemote)"
  by (simp add: fetchRemoteRegistry_def example_trusted fetchLoop.simps exampleWorld_def
        fetchAttempt_def examplePayloadLength_def example_retry_attempts Let_def
        example_maxPayloadSize sublist_code(3))

lemma example_valid: "validateRemoteSchema (Document exampleRemote) = Inr exampleRemote"
  by (simp add: validateRemoteSchema_def exampleRemote_def exampleRemoteEntry_def)

lemma example_remoteVersion: "remoteVersionOf exampleRemote = ''2.0''"
  by (simp add: remoteVersionOf_def exampleRemote_def)

lemma example_cachePath:
  "syncCachePath Number_dec exampleWorld syncOptions st r = (None, st, r)"
  by (simp add: syncCachePath_def exampleWorld_def)

lemma example_newPrompts:
  "\<exists>st2 mergeResult.
     mergeRegistries Number_dec (startStore exampleStore syncOptions) exampleRemote
       (Some ''2.0'') (exampleOptions PreferLocal) = (st2, Inr mergeResult)
     \<and> newPrompts mergeResult = 1"
  by (simp add: example_defs startStore_def)

lemma example_newPrompts_warn:
  "\<exists>st2 mergeResult.
     mergeRegistries Number_dec (startStore exampleStore syncOptions) exampleRemote
       (Some ''2.0'') warnOptions = (st2, Inr mergeResult)
     \<and> newPrompts mergeResult = 1"
  by (simp add: example_defs startStore_def warnOptions_def)

text \<open>
  Claim C10. When \<open>sync\<close> reaches the write of the registry file (the merge of a
  cached document, if there is one, returns, the fetch path is taken, the payload is
  fetched and valid, and its merge returns with a new or an updated prompt) and the
  write throws, \<open>sync\<close> surfaces a \<^verbatim>\<open>SyncError\<close> of code \<open>QUOTA_EXCEEDED\<close> whose
  message ends with the message of what the write threw: it is thrown under the
  error policy \<^verbatim>\<open>throw\<close>, and otherwise it is the one error of the returned result,
  whose \<^verbatim>\<open>success\<close> is false.
\<close>

theorem sync_save_failure:
  fixes num :: "string \<Rightarrow> 'n::{zero,linorder} option"
  assumes "cachedSecond w = None \<or> force syncOptions"
    and "syncCachePath num w syncOptions (startStore st syncOptions) (startResult st)
           = (None, st1, r1)"
    and "outcome (fetchRemoteRegistry cfg parseURL jsonLength (network w) (url syncOptions))
           = Inr remoteData"
    and "validateRemoteSchema remoteData = Inr doc"
    and "mergeRegistries num st1 doc (Some (remoteVersionOf doc)) syncOptions
           = (st2, Inr mergeResult)"
    and "newPrompts mergeResult > 0 \<or> updatedPrompts mergeResult > 0"
    and "writeThrows w = Some e"
  shows "(errorPolicy syncOptions = Throw \<longrightarrow>
            fst (sync cfg num parseURL jsonLength w st syncOptions)
              = Inl (SyncError QUOTA_EXCEEDED (''Failed to save registry: '' @ message e)))
       \<and> (errorPolicy syncOptions \<noteq> Throw \<longrightarrow>
            (\<exists>r. fst (sync cfg num parseURL jsonLength w st syncOptions) = Inr r
                 \<and> \<not> success r
                 \<and> errors r = [SyncError QUOTA_EXCEEDED
                                  (''Failed to save registry: '' @ message e)]))"
proof -
  let ?err = "SyncError QUOTA_EXCEEDED (''Failed to save registry: '' @ message e)"
  have e1: "errors r1 = []" and s1: "\<not> success r1"
    using assms(2)
    by (auto simp: syncCachePath_def withMerge_def startResult_def
          split: if_splits option.splits prod.splits sum.splits)
  let ?r2 = "withMerge (r1\<lparr>remoteVersion := Some (remoteVersionOf doc)\<rparr>) mergeResult"
  have fp: "syncFetchPath cfg num parseURL jsonLength w syncOptions st1 r1 = (Some ?err, st2, ?r2)"
    using assms(3,4,5,6,7)
    by (simp add: syncFetchPath_def Let_def saveLocalRegistry_def withMerge_def)
  have tr: "syncTry cfg num parseURL jsonLength w syncOptions
              (startStore st syncOptions) (startResult st) = (Some ?err, st2, ?r2)"
    using assms(1,2) fp by (simp add: syncTry_def)
  have e2: "errors ?r2 = []" and s2: "\<not> success ?r2"
    using e1 s1 by (simp_all add: withMerge_def)
  show ?thesis
    using tr e2 s2 by (simp add: sync_def Let_def)
qed

theorem sync_save_failure_witness:
  "cachedSecond exampleWorld = None
   \<and> syncCachePath Number_dec exampleWorld (exampleOptions PreferLocal)
         (startStore exampleStore (exampleOptions PreferLocal)) (startResult exampleStore)
       = (None, startStore exampleStore (exampleOptions PreferLocal), startResult exampleStore)
   \<and> outcome (fetchRemoteRegistry DEFAULT_CONFIG exampleParseURL examplePayloadLength
               (network exampleWorld) (url (exampleOptions PreferLocal)))
       = Inr (Document exampleRemote)
   \<and> validateRemoteSchema (Document exampleRemote) = Inr exampleRemote
   \<and> (\<exists>st2 mergeResult.
         mergeRegistries Number_dec (startStore exampleStore (exampleOptions PreferLocal))
           exampleRemote (Some (remoteVersionOf exampleRemote)) (exampleOptions PreferLocal)
           = (st2, Inr mergeResult)
         \<and> newPrompts mergeResult = 1)
   \<and> writeThrows exampleWorld = Some (Error ''ENOSPC: no space left on device'')
   \<and> errorPolicy (exampleOptions PreferLocal) = Throw
   \<and> fst (sync DEFAULT_CONFIG Number_dec exampleParseURL examplePayloadLength exampleWorld
            exampleStore (exampleOptions PreferLocal))
       = Inl (SyncError QUOTA_EXCEEDED
                ''Failed to save registry: ENOSPC: no space left on device'')
   \<and> errorPolicy warnOptions \<noteq> Throw
   \<and> (\<exists>r. fst (sync DEFAULT_CONFIG Number_dec exampleParseURL examplePayloadLength exampleWorld
                 exampleStore warnOptions) = Inr r
          \<and> \<not> success r
          \<and> errors r = [SyncError QUOTA_EXCEEDED
                           ''Failed to save registry: ENOSPC: no space left on device''])"
proof -
  let ?o = "exampleOptions PreferLocal"
  have u: "url ?o = ''https://github.com/registry.json''" and p: "errorPolicy ?o = Throw"
    by (simp_all add: exampleOptions_def)
  have h1: "cachedSecond exampleWorld = None \<or> force ?o" and h1': "cachedSecond exampleWorld = None"
    by (simp_all add: exampleWorld_def)
  have h2: "syncCachePath Number_dec exampleWorld ?o (startStore exampleStore ?o)
              (startResult exampleStore)
            = (None, startStore exampleStore ?o, startResult exampleStore)"
    by (rule example_cachePath)
  have h3: "outcome (fetchRemoteRegistry DEFAULT_CONFIG exampleParseURL examplePayloadLength
               (network exampleWorld) (url ?o)) = Inr (Document exampleRemote)"
    unfolding u by (rule example_fetch)
  have h5: "\<exists>st2 mergeResult.
         mergeRegistries Number_dec (startStore exampleStore ?o)
           exampleRemote (Some (remoteVersionOf exampleRemote)) ?o = (st2, Inr mergeResult)
         \<and> newPrompts mergeResult = 1"
    unfolding example_remoteVersion by (rule example_newPrompts)
  then obtain st2 mergeResult where
    m: "mergeRegistries Number_dec (startStore exampleStore ?o)
           exampleRemote (Some (remoteVersionOf exampleRemote)) ?o = (st2, Inr mergeResult)"
    and n: "newPrompts mergeResult = 1" by blast
  have h6: "newPrompts mergeResult > 0 \<or> updatedPrompts mergeResult > 0" using n by simp
  have h7: "writeThrows exampleWorld = Some (Error ''ENOSPC: no space left on device'')"
    by (simp add: exampleWorld_def)
  have r: "fst (sync DEFAULT_CONFIG Number_dec exampleParseURL examplePayloadLength exampleWorld
            exampleStore ?o)
       = Inl (SyncError QUOTA_EXCEEDED
                ''Failed to save registry: ENOSPC: no space left on device'')"
    using sync_save_failure[OF h1 h2 h3 example_valid m h6 h7] p
    by simp
  have uw: "url warnOptions = ''https://github.com/registry.json''"
    and pw: "errorPolicy warnOptions \<noteq> Throw"
    by (simp_all add: warnOptions_def exampleOptions_def)
  have w1: "cachedSecond exampleWorld = None \<or> force warnOptions"
    by (simp add: exampleWorld_def)
  have w2: "syncCachePath Number_dec exampleWorld warnOptions (startStore exampleStore warnOptions)
              (startResult exampleStore)
            = (None, startStore exampleStore warnOptions, startResult exampleStore)"
    by (rule example_cachePath)
  have w3: "outcome (fetchRemoteRegistry DEFAULT_CONFIG exampleParseURL examplePayloadLength
               (network exampleWorld) (url warnOptions)) = Inr (Document exampleRemote)"
    unfolding uw by (rule example_fetch)
  have "\<exists>st2 mergeResult.
         mergeRegistries Number_dec (startStore exampleStore warnOptions)
           exampleRemote (Some (remoteVersionOf exampleRemote)) warnOptions = (st2, Inr mergeResult)
         \<and> newPrompts mergeResult = 1"
    unfolding example_remoteVersion by (rule example_newPrompts_warn)
  then obtain st2w mergeResultw where
    mw: "mergeRegistries Number_dec (startStore exampleStore warnOptions)
           exampleRemote (Some (remoteVersionOf exampleRemote)) warnOptions = (st2w, Inr mergeResultw)"
    and nw: "newPrompts mergeResultw = 1" by blast
  have w6: "newPrompts mergeResultw > 0 \<or> updatedPrompts mergeResultw > 0" using nw by simp
  have rw: "\<exists>r. fst (sync DEFAULT_CONFIG Number_dec exampleParseURL examplePayloadLength
                 exampleWorld exampleStore warnOptions) = Inr r
          \<and> \<not> success r
          \<and> errors r = [SyncError QUOTA_EXCEEDED
                           ''Failed to save registry: ENOSPC: no space left on device'']"
    using sync_save_failure[OF w1 w2 w3 example_valid mw w6 h7] pw
    by simp
  from h1' h2 h3 example_valid h5 h7 p r pw rw show ?thesis by (intro conjI)
qed

end
